theory Spec2Isabelle
  imports Complex_Main "HOL-Library.Word"
begin

unbundle bit_operations_syntax

section \<open>EXIF extraction and geodesy helpers of the photo map\<close>

text \<open>
  The development embeds \<^verbatim>\<open>exif.ts\<close> (the EXIF reader and the redaction re-encoder),
  \<^verbatim>\<open>calculateBearing\<close> of \<^verbatim>\<open>PhotoMarker.svelte\<close> and \<^verbatim>\<open>getBearingLabel\<close> of
  \<^verbatim>\<open>photo.entity.ts\<close>.

  Conventions of the embedding:
  \<^item> a \<^verbatim>\<open>DataView\<close> over an \<^verbatim>\<open>ArrayBuffer\<close> is the list of its bytes; a read outside
    the buffer raises \<^verbatim>\<open>RangeError\<close> in JavaScript and is \<open>Inl RangeError\<close> here;
  \<^item> byte offsets are JavaScript numbers that only ever hold non-negative integers far
    below \<open>2^53\<close>, so they are \<open>nat\<close> and their sums are exact;
  \<^item> the other JavaScript numbers (coordinates, bearings) are IEEE doubles in the
    program and are idealised as \<open>real\<close>: every arithmetic operation is the exact one,
    rounding error, infinities and NaN are not modelled;
  \<^item> a \<^verbatim>\<open>try { ... } catch\<close> block is a \<open>case\<close> on the sum returned by its body;
  \<^item> a JavaScript string is a list of characters; \<^verbatim>\<open>null\<close> (and an unset key of a
    \<^verbatim>\<open>Partial\<close> object) is \<open>None\<close>.
\<close>

subsection \<open>Binary reader\<close>

type_synonym byte = "8 word"
type_synonym DataView = "byte list"

datatype error = RangeError | NotReadableError

definition getUint8 :: "DataView \<Rightarrow> nat \<Rightarrow> error + nat" where
  "getUint8 view off =
     (if off + 1 \<le> length view then Inr (unat (view ! off)) else Inl RangeError)"

definition getUint16 :: "DataView \<Rightarrow> nat \<Rightarrow> bool \<Rightarrow> error + nat" where
  "getUint16 view off littleEndian =
     (if off + 2 \<le> length view then
        (let b0 = unat (view ! off); b1 = unat (view ! (off + 1))
         in Inr (if littleEndian then b1 * 256 + b0 else b0 * 256 + b1))
      else Inl RangeError)"

definition getUint32 :: "DataView \<Rightarrow> nat \<Rightarrow> bool \<Rightarrow> error + nat" where
  "getUint32 view off littleEndian =
     (if off + 4 \<le> length view then
        (let b0 = unat (view ! off); b1 = unat (view ! (off + 1));
             b2 = unat (view ! (off + 2)); b3 = unat (view ! (off + 3))
         in Inr (if littleEndian
                 then ((b3 * 256 + b2) * 256 + b1) * 256 + b0
                 else ((b0 * 256 + b1) * 256 + b2) * 256 + b3))
      else Inl RangeError)"

definition fromCharCode :: "nat \<Rightarrow> char" where
  "fromCharCode n = char_of n"

subsection \<open>Tag constants\<close>

definition EXIF_MARKER :: nat where "EXIF_MARKER = 0xffe1"
definition EXIF_HEADER :: string where
  "EXIF_HEADER = [CHR ''E'', CHR ''x'', CHR ''i'', CHR ''f'', CHR 0x00, CHR 0x00]"
definition GPS_IFD_POINTER :: nat where "GPS_IFD_POINTER = 0x8825"
definition GPS_LATITUDE :: nat where "GPS_LATITUDE = 0x0002"
definition GPS_LATITUDE_REF :: nat where "GPS_LATITUDE_REF = 0x0001"
definition GPS_LONGITUDE :: nat where "GPS_LONGITUDE = 0x0004"
definition GPS_LONGITUDE_REF :: nat where "GPS_LONGITUDE_REF = 0x0003"
definition GPS_IMG_DIRECTION :: nat where "GPS_IMG_DIRECTION = 0x0011"
definition DATE_TIME_ORIGINAL :: nat where "DATE_TIME_ORIGINAL = 0x9003"
definition DATE_TIME_DIGITIZED :: nat where "DATE_TIME_DIGITIZED = 0x9004"

subsection \<open>The result record\<close>

record ExifData =
  latitude :: "real option"
  longitude :: "real option"
  bearing :: "real option"
  dateTaken :: "string option"

definition allAbsent :: ExifData where
  "allAbsent = \<lparr>latitude = None, longitude = None, bearing = None, dateTaken = None\<rparr>"

text \<open>
  \<^verbatim>\<open>{ ...a, ...b }\<close> and \<^verbatim>\<open>Object.assign(a, b)\<close>: every key that is set in \<open>b\<close>
  replaces the one of \<open>a\<close>.
\<close>

definition override :: "'a option \<Rightarrow> 'a option \<Rightarrow> 'a option" where
  "override a b = (case b of None \<Rightarrow> a | Some v \<Rightarrow> Some v)"

definition spread :: "ExifData \<Rightarrow> ExifData \<Rightarrow> ExifData" where
  "spread a b =
     \<lparr>latitude = override (latitude a) (latitude b),
      longitude = override (longitude a) (longitude b),
      bearing = override (bearing a) (bearing b),
      dateTaken = override (dateTaken a) (dateTaken b)\<rparr>"

subsection \<open>Geodesy helper: degrees, minutes, seconds to decimal degrees\<close>

definition gpsToDecimal :: "real \<Rightarrow> real \<Rightarrow> real \<Rightarrow> string \<Rightarrow> real" where
  "gpsToDecimal degrees minutes seconds ref =
     (let decimal = degrees + minutes / 60 + seconds / 3600
      in if ref = ''S'' \<or> ref = ''W'' then - decimal else decimal)"

subsection \<open>Reading a date\<close>

definition isDigit :: "char \<Rightarrow> bool" where
  "isDigit c = (48 \<le> (of_char c :: nat) \<and> (of_char c :: nat) \<le> 57)"

text \<open>
  The regular expression \<^verbatim>\<open>(\d{4}):(\d{2}):(\d{2}) (\d{2}):(\d{2}):(\d{2})\<close> at the
  start of a string, with its six groups, and anywhere in a string (first match), as
  \<^verbatim>\<open>String.prototype.match\<close> searches.
\<close>

fun matchDateAt :: "string \<Rightarrow> (string \<times> string \<times> string \<times> string \<times> string \<times> string) option" where
  "matchDateAt (y1 # y2 # y3 # y4 # c1 # m1 # m2 # c2 # d1 # d2 # sp # h1 # h2 # c3 # n1 # n2 # c4 # s1 # s2 # rest) =
     (if isDigit y1 \<and> isDigit y2 \<and> isDigit y3 \<and> isDigit y4 \<and> c1 = CHR '':'' \<and>
         isDigit m1 \<and> isDigit m2 \<and> c2 = CHR '':'' \<and>
         isDigit d1 \<and> isDigit d2 \<and> sp = CHR '' '' \<and>
         isDigit h1 \<and> isDigit h2 \<and> c3 = CHR '':'' \<and>
         isDigit n1 \<and> isDigit n2 \<and> c4 = CHR '':'' \<and>
         isDigit s1 \<and> isDigit s2
      then Some ([y1, y2, y3, y4], [m1, m2], [d1, d2], [h1, h2], [n1, n2], [s1, s2])
      else None)"
| "matchDateAt _ = None"

fun matchDate :: "string \<Rightarrow> (string \<times> string \<times> string \<times> string \<times> string \<times> string) option" where
  "matchDate [] = matchDateAt []"
| "matchDate (c # cs) =
     (case matchDateAt (c # cs) of Some g \<Rightarrow> Some g | None \<Rightarrow> matchDate cs)"

text \<open>The loop of \<^verbatim>\<open>readExifDate\<close>: at most 19 bytes, stopping at a zero byte.\<close>

function readDateChars :: "DataView \<Rightarrow> nat \<Rightarrow> nat \<Rightarrow> string \<Rightarrow> error + string" where
  "readDateChars view offset i dateStr =
     (if i < 19 then
        (case getUint8 view (offset + i) of
           Inl e \<Rightarrow> Inl e
         | Inr char \<Rightarrow>
             if char = 0 then Inr dateStr
             else readDateChars view offset (i + 1) (dateStr @ [fromCharCode char]))
      else Inr dateStr)"
  by pat_completeness auto
termination
  by (relation "measure (\<lambda>(view, offset, i, dateStr). 19 - i)") auto

definition readExifDate :: "DataView \<Rightarrow> nat \<Rightarrow> string option" where
  "readExifDate view offset =
     (case readDateChars view offset 0 [] of
        Inl e \<Rightarrow> None
      | Inr dateStr \<Rightarrow>
          (case matchDate dateStr of
             Some (year, month, day, hour, minute, sec) \<Rightarrow>
               Some (year @ ''-'' @ month @ ''-'' @ day @ ''T'' @ hour @ '':'' @ minute @ '':'' @ sec @ ''Z'')
           | None \<Rightarrow> None))"

subsection \<open>Reading GPS rationals\<close>

function readGpsRationalsFrom :: "DataView \<Rightarrow> nat \<Rightarrow> bool \<Rightarrow> nat \<Rightarrow> real list \<Rightarrow> error + real list" where
  "readGpsRationalsFrom view offset littleEndian i values =
     (if i < 3 then
        (case getUint32 view (offset + i * 8) littleEndian of
           Inl e \<Rightarrow> Inl e
         | Inr num \<Rightarrow>
             (case getUint32 view (offset + i * 8 + 4) littleEndian of
                Inl e \<Rightarrow> Inl e
              | Inr den \<Rightarrow>
                  readGpsRationalsFrom view offset littleEndian (i + 1)
                    (values @ [if den \<noteq> 0 then real num / real den else 0])))
      else Inr values)"
  by pat_completeness auto
termination
  by (relation "measure (\<lambda>(view, offset, littleEndian, i, values). 3 - i)") auto

definition readGpsRationals :: "DataView \<Rightarrow> nat \<Rightarrow> bool \<Rightarrow> error + real list" where
  "readGpsRationals view offset littleEndian = readGpsRationalsFrom view offset littleEndian 0 []"

subsection \<open>The GPS IFD\<close>

text \<open>
  The local variables of \<^verbatim>\<open>parseGpsIfd\<close> that its loop assigns; \<open>resultBearing\<close> is the
  key \<^verbatim>\<open>result.bearing\<close>, which the loop sets directly.
\<close>

record GpsScan =
  latRef :: "string option"
  lngRef :: "string option"
  latValues :: "real list option"
  lngValues :: "real list option"
  resultBearing :: "real option"

definition gpsScanInit :: GpsScan where
  "gpsScanInit = \<lparr>latRef = None, lngRef = None, latValues = None, lngValues = None, resultBearing = None\<rparr>"

text \<open>One iteration of the loop over the entries of the GPS IFD.\<close>

definition gpsEntry :: "DataView \<Rightarrow> nat \<Rightarrow> nat \<Rightarrow> bool \<Rightarrow> GpsScan \<Rightarrow> error + GpsScan" where
  "gpsEntry view entryOffset tiffOffset littleEndian st =
     (case getUint16 view entryOffset littleEndian of Inl e \<Rightarrow> Inl e | Inr tag \<Rightarrow>
     (case getUint16 view (entryOffset + 2) littleEndian of Inl e \<Rightarrow> Inl e | Inr type \<Rightarrow>
     (case getUint32 view (entryOffset + 4) littleEndian of Inl e \<Rightarrow> Inl e | Inr count \<Rightarrow>
        if tag = GPS_LATITUDE_REF then
          (case getUint8 view (entryOffset + 8) of Inl e \<Rightarrow> Inl e
           | Inr c \<Rightarrow> Inr (st\<lparr>latRef := Some [fromCharCode c]\<rparr>))
        else if tag = GPS_LONGITUDE_REF then
          (case getUint8 view (entryOffset + 8) of Inl e \<Rightarrow> Inl e
           | Inr c \<Rightarrow> Inr (st\<lparr>lngRef := Some [fromCharCode c]\<rparr>))
        else if tag = GPS_LATITUDE \<and> type = 5 \<and> count = 3 then
          (case getUint32 view (entryOffset + 8) littleEndian of Inl e \<Rightarrow> Inl e
           | Inr valueOffset \<Rightarrow>
               (case readGpsRationals view (tiffOffset + valueOffset) littleEndian of Inl e \<Rightarrow> Inl e
                | Inr vs \<Rightarrow> Inr (st\<lparr>latValues := Some vs\<rparr>)))
        else if tag = GPS_LONGITUDE \<and> type = 5 \<and> count = 3 then
          (case getUint32 view (entryOffset + 8) littleEndian of Inl e \<Rightarrow> Inl e
           | Inr valueOffset \<Rightarrow>
               (case readGpsRationals view (tiffOffset + valueOffset) littleEndian of Inl e \<Rightarrow> Inl e
                | Inr vs \<Rightarrow> Inr (st\<lparr>lngValues := Some vs\<rparr>)))
        else if tag = GPS_IMG_DIRECTION \<and> type = 5 then
          (case getUint32 view (entryOffset + 8) littleEndian of Inl e \<Rightarrow> Inl e
           | Inr valueOffset \<Rightarrow>
               (case getUint32 view (tiffOffset + valueOffset) littleEndian of Inl e \<Rightarrow> Inl e
                | Inr num \<Rightarrow>
                    (case getUint32 view (tiffOffset + valueOffset + 4) littleEndian of Inl e \<Rightarrow> Inl e
                     | Inr den \<Rightarrow>
                         if den \<noteq> 0 then Inr (st\<lparr>resultBearing := Some (real num / real den)\<rparr>)
                         else Inr st)))
        else Inr st)))"

text \<open>
  The loop \<^verbatim>\<open>for (let i = 0; i < entryCount; i++)\<close>. An exception leaves the loop with
  the variables as the completed iterations set them; the second component says
  whether one was thrown.
\<close>

function gpsLoop :: "DataView \<Rightarrow> nat \<Rightarrow> nat \<Rightarrow> bool \<Rightarrow> nat \<Rightarrow> nat \<Rightarrow> GpsScan \<Rightarrow> GpsScan \<times> error option" where
  "gpsLoop view ifdOffset tiffOffset littleEndian entryCount i st =
     (if i < entryCount then
        (case gpsEntry view (ifdOffset + 2 + i * 12) tiffOffset littleEndian st of
           Inl e \<Rightarrow> (st, Some e)
         | Inr st' \<Rightarrow> gpsLoop view ifdOffset tiffOffset littleEndian entryCount (i + 1) st')
      else (st, None))"
  by pat_completeness auto
termination
  by (relation "measure (\<lambda>(view, ifdOffset, tiffOffset, littleEndian, entryCount, i, st). entryCount - i)") auto

text \<open>Truthiness of the values the program tests with \<^verbatim>\<open>if (x)\<close> and \<^verbatim>\<open>&&\<close>.\<close>

definition truthyString :: "string option \<Rightarrow> bool" where
  "truthyString s = (case s of None \<Rightarrow> False | Some t \<Rightarrow> t \<noteq> [])"

definition truthyArray :: "'a list option \<Rightarrow> bool" where
  "truthyArray a = (a \<noteq> None)"

definition truthyNumber :: "nat option \<Rightarrow> bool" where
  "truthyNumber n = (case n of None \<Rightarrow> False | Some k \<Rightarrow> k \<noteq> 0)"

definition axisDecimal :: "real list option \<Rightarrow> string option \<Rightarrow> real option" where
  "axisDecimal values ref =
     (if truthyArray values \<and> truthyString ref
      then Some (gpsToDecimal (the values ! 0) (the values ! 1) (the values ! 2) (the ref))
      else None)"

definition parseGpsIfd :: "DataView \<Rightarrow> nat \<Rightarrow> nat \<Rightarrow> bool \<Rightarrow> ExifData" where
  "parseGpsIfd view ifdOffset tiffOffset littleEndian =
     (case getUint16 view ifdOffset littleEndian of
        Inl e \<Rightarrow> allAbsent
      | Inr entryCount \<Rightarrow>
          (case gpsLoop view ifdOffset tiffOffset littleEndian entryCount 0 gpsScanInit of
             (st, Some e) \<Rightarrow> allAbsent\<lparr>bearing := resultBearing st\<rparr>
           | (st, None) \<Rightarrow>
               allAbsent\<lparr>bearing := resultBearing st,
                          latitude := axisDecimal (latValues st) (latRef st),
                          longitude := axisDecimal (lngValues st) (lngRef st)\<rparr>))"

subsection \<open>IFD0 and the EXIF sub-IFD\<close>

function exifIfdLoop :: "DataView \<Rightarrow> nat \<Rightarrow> nat \<Rightarrow> bool \<Rightarrow> nat \<Rightarrow> nat \<Rightarrow> error + string option" where
  "exifIfdLoop view ifdOffset tiffOffset littleEndian entryCount i =
     (if i < entryCount then
        (let entryOffset = ifdOffset + 2 + i * 12 in
         case getUint16 view entryOffset littleEndian of
           Inl e \<Rightarrow> Inl e
         | Inr tag \<Rightarrow>
             if tag = DATE_TIME_ORIGINAL \<or> tag = DATE_TIME_DIGITIZED then
               (case getUint32 view (entryOffset + 8) littleEndian of
                  Inl e \<Rightarrow> Inl e
                | Inr valueOffset \<Rightarrow> Inr (readExifDate view (tiffOffset + valueOffset)))
             else exifIfdLoop view ifdOffset tiffOffset littleEndian entryCount (i + 1))
      else Inr None)"
  by pat_completeness auto
termination
  by (relation "measure (\<lambda>(view, ifdOffset, tiffOffset, littleEndian, entryCount, i). entryCount - i)") auto

definition parseDateFromExifIfd :: "DataView \<Rightarrow> nat \<Rightarrow> nat \<Rightarrow> bool \<Rightarrow> string option" where
  "parseDateFromExifIfd view ifdOffset tiffOffset littleEndian =
     (case getUint16 view ifdOffset littleEndian of
        Inl e \<Rightarrow> None
      | Inr entryCount \<Rightarrow>
          (case exifIfdLoop view ifdOffset tiffOffset littleEndian entryCount 0 of
             Inl e \<Rightarrow> None
           | Inr d \<Rightarrow> d))"

text \<open>The two variables of \<^verbatim>\<open>parseIfd0\<close>, which are also what it returns.\<close>

record Ifd0Scan =
  gpsIfdOffset :: "nat option"
  scanDateTaken :: "string option"

definition ifd0ScanInit :: Ifd0Scan where
  "ifd0ScanInit = \<lparr>gpsIfdOffset = None, scanDateTaken = None\<rparr>"

text \<open>One iteration of the first loop: the GPS pointer and the date tags of IFD0.\<close>

definition ifd0Entry :: "DataView \<Rightarrow> nat \<Rightarrow> nat \<Rightarrow> bool \<Rightarrow> Ifd0Scan \<Rightarrow> error + Ifd0Scan" where
  "ifd0Entry view entryOffset tiffOffset littleEndian st =
     (case getUint16 view entryOffset littleEndian of
        Inl e \<Rightarrow> Inl e
      | Inr tag \<Rightarrow>
          if tag = GPS_IFD_POINTER then
            (case getUint32 view (entryOffset + 8) littleEndian of
               Inl e \<Rightarrow> Inl e
             | Inr v \<Rightarrow> Inr (st\<lparr>gpsIfdOffset := Some v\<rparr>))
          else if tag = DATE_TIME_ORIGINAL \<or> tag = DATE_TIME_DIGITIZED then
            (case getUint32 view (entryOffset + 8) littleEndian of
               Inl e \<Rightarrow> Inl e
             | Inr valueOffset \<Rightarrow>
                 Inr (st\<lparr>scanDateTaken := readExifDate view (tiffOffset + valueOffset)\<rparr>))
          else Inr st)"

text \<open>One iteration of the second loop: the pointer to the EXIF sub-IFD.\<close>

definition ifd0SubEntry :: "DataView \<Rightarrow> nat \<Rightarrow> nat \<Rightarrow> bool \<Rightarrow> Ifd0Scan \<Rightarrow> error + Ifd0Scan" where
  "ifd0SubEntry view entryOffset tiffOffset littleEndian st =
     (case getUint16 view entryOffset littleEndian of
        Inl e \<Rightarrow> Inl e
      | Inr tag \<Rightarrow>
          if tag = 0x8769 then
            (case getUint32 view (entryOffset + 8) littleEndian of
               Inl e \<Rightarrow> Inl e
             | Inr exifIfdOffset \<Rightarrow>
                 (let exifDate = parseDateFromExifIfd view (tiffOffset + exifIfdOffset) tiffOffset littleEndian
                  in if truthyString exifDate \<and> \<not> truthyString (scanDateTaken st)
                     then Inr (st\<lparr>scanDateTaken := exifDate\<rparr>)
                     else Inr st))
          else Inr st)"

function ifd0Loop :: "DataView \<Rightarrow> nat \<Rightarrow> nat \<Rightarrow> bool \<Rightarrow> nat \<Rightarrow> nat \<Rightarrow> Ifd0Scan \<Rightarrow> Ifd0Scan \<times> error option" where
  "ifd0Loop view ifdOffset tiffOffset littleEndian entryCount i st =
     (if i < entryCount then
        (case ifd0Entry view (ifdOffset + 2 + i * 12) tiffOffset littleEndian st of
           Inl e \<Rightarrow> (st, Some e)
         | Inr st' \<Rightarrow> ifd0Loop view ifdOffset tiffOffset littleEndian entryCount (i + 1) st')
      else (st, None))"
  by pat_completeness auto
termination
  by (relation "measure (\<lambda>(view, ifdOffset, tiffOffset, littleEndian, entryCount, i, st). entryCount - i)") auto

function ifd0SubLoop :: "DataView \<Rightarrow> nat \<Rightarrow> nat \<Rightarrow> bool \<Rightarrow> nat \<Rightarrow> nat \<Rightarrow> Ifd0Scan \<Rightarrow> Ifd0Scan \<times> error option" where
  "ifd0SubLoop view ifdOffset tiffOffset littleEndian entryCount i st =
     (if i < entryCount then
        (case ifd0SubEntry view (ifdOffset + 2 + i * 12) tiffOffset littleEndian st of
           Inl e \<Rightarrow> (st, Some e)
         | Inr st' \<Rightarrow> ifd0SubLoop view ifdOffset tiffOffset littleEndian entryCount (i + 1) st')
      else (st, None))"
  by pat_completeness auto
termination
  by (relation "measure (\<lambda>(view, ifdOffset, tiffOffset, littleEndian, entryCount, i, st). entryCount - i)") auto

definition parseIfd0 :: "DataView \<Rightarrow> nat \<Rightarrow> nat \<Rightarrow> bool \<Rightarrow> Ifd0Scan" where
  "parseIfd0 view ifdOffset tiffOffset littleEndian =
     (case getUint16 view ifdOffset littleEndian of
        Inl e \<Rightarrow> ifd0ScanInit
      | Inr entryCount \<Rightarrow>
          (case ifd0Loop view ifdOffset tiffOffset littleEndian entryCount 0 ifd0ScanInit of
             (st, Some e) \<Rightarrow> st
           | (st, None) \<Rightarrow> fst (ifd0SubLoop view ifdOffset tiffOffset littleEndian entryCount 0 st)))"

subsection \<open>The TIFF header\<close>

text \<open>
  The statements of the \<^verbatim>\<open>try\<close> block of \<^verbatim>\<open>parseExifData\<close> that follow the decision
  on the byte order. \<^verbatim>\<open>parseIfd0\<close> and \<^verbatim>\<open>parseGpsIfd\<close> catch their own exceptions, so
  the block can only throw before it has set a key of its result.
\<close>

definition parseTiffBody :: "DataView \<Rightarrow> nat \<Rightarrow> bool \<Rightarrow> error + ExifData" where
  "parseTiffBody view tiffOffset littleEndian =
     (case getUint16 view (tiffOffset + 2) littleEndian of
        Inl e \<Rightarrow> Inl e
      | Inr magic \<Rightarrow>
          if magic \<noteq> 0x002a then Inr allAbsent
          else
            (case getUint32 view (tiffOffset + 4) littleEndian of
               Inl e \<Rightarrow> Inl e
             | Inr ifd0Offset \<Rightarrow>
                 (let ifd0AbsOffset = tiffOffset + ifd0Offset;
                      ifd0 = parseIfd0 view ifd0AbsOffset tiffOffset littleEndian;
                      result = (if truthyString (scanDateTaken ifd0)
                                then allAbsent\<lparr>dateTaken := scanDateTaken ifd0\<rparr>
                                else allAbsent)
                  in if truthyNumber (gpsIfdOffset ifd0)
                     then Inr (spread result
                            (parseGpsIfd view (tiffOffset + the (gpsIfdOffset ifd0)) tiffOffset littleEndian))
                     else Inr result)))"

definition parseExifData :: "DataView \<Rightarrow> nat \<Rightarrow> int \<Rightarrow> ExifData" where
  "parseExifData view tiffOffset maxLength =
     (case getUint16 view tiffOffset False of
        Inl e \<Rightarrow> allAbsent
      | Inr byteOrder \<Rightarrow>
          (let littleEndian = (byteOrder = 0x4949) in
           case parseTiffBody view tiffOffset littleEndian of
             Inl e \<Rightarrow> allAbsent
           | Inr result \<Rightarrow> result))"

subsection \<open>Locating the EXIF segment\<close>

text \<open>
  A \<^verbatim>\<open>File\<close>: its declared media type, its name, and what \<^verbatim>\<open>arrayBuffer()\<close> resolves
  to (the bytes) or rejects with.
\<close>

record File =
  file_type :: string
  file_name :: string
  file_arrayBuffer :: "error + byte list"

definition toLowerChar :: "char \<Rightarrow> char" where
  "toLowerChar c =
     (let n = (of_char c :: nat) in if 65 \<le> n \<and> n \<le> 90 then char_of (n + 32) else c)"

definition toLowerCase :: "string \<Rightarrow> string" where
  "toLowerCase s = map toLowerChar s"

definition startsWith :: "string \<Rightarrow> string \<Rightarrow> bool" where
  "startsWith s p = (take (length p) s = p)"

definition endsWith :: "string \<Rightarrow> string \<Rightarrow> bool" where
  "endsWith s p = (length p \<le> length s \<and> drop (length s - length p) s = p)"

text \<open>The six bytes read for the header, as the string \<^verbatim>\<open>String.fromCharCode\<close> builds.\<close>

definition readHeader :: "DataView \<Rightarrow> nat \<Rightarrow> error + string" where
  "readHeader view offset =
     (case getUint8 view offset of Inl e \<Rightarrow> Inl e | Inr c0 \<Rightarrow>
     (case getUint8 view (offset + 1) of Inl e \<Rightarrow> Inl e | Inr c1 \<Rightarrow>
     (case getUint8 view (offset + 2) of Inl e \<Rightarrow> Inl e | Inr c2 \<Rightarrow>
     (case getUint8 view (offset + 3) of Inl e \<Rightarrow> Inl e | Inr c3 \<Rightarrow>
     (case getUint8 view (offset + 4) of Inl e \<Rightarrow> Inl e | Inr c4 \<Rightarrow>
     (case getUint8 view (offset + 5) of Inl e \<Rightarrow> Inl e | Inr c5 \<Rightarrow>
        Inr [fromCharCode c0, fromCharCode c1, fromCharCode c2,
             fromCharCode c3, fromCharCode c4, fromCharCode c5]))))))"

text \<open>
  The \<^verbatim>\<open>while\<close> loop of \<^verbatim>\<open>extractExifData\<close> from a given offset. \<open>Inr (Some r)\<close> is the
  \<^verbatim>\<open>return\<close> inside the loop, \<open>Inr None\<close> is leaving the loop (condition false or
  \<^verbatim>\<open>break\<close>), \<open>Inl e\<close> is an exception.
\<close>

function findExif :: "DataView \<Rightarrow> nat \<Rightarrow> error + ExifData option" where
  "findExif view offset =
     (if int offset < int (length view) - 4 then
        (case getUint16 view offset False of
           Inl e \<Rightarrow> Inl e
         | Inr marker \<Rightarrow>
             if marker = EXIF_MARKER then
               (case getUint16 view (offset + 2) False of
                  Inl e \<Rightarrow> Inl e
                | Inr len \<Rightarrow>
                    (case readHeader view (offset + 2 + 2) of
                       Inl e \<Rightarrow> Inl e
                     | Inr header \<Rightarrow>
                         if header = EXIF_HEADER then
                           Inr (Some (spread allAbsent
                                  (parseExifData view (offset + 2 + 2 + 6) (int len - 8))))
                         else findExif view (offset + 2 + 2)))
             else if marker AND 0xff00 = 0xff00 then
               (case getUint16 view (offset + 2) False of
                  Inl e \<Rightarrow> Inl e
                | Inr len \<Rightarrow> findExif view (offset + 2 + len))
             else Inr None)
      else Inr None)"
  by pat_completeness auto
termination
  by (relation "measure (\<lambda>(view, offset). length view - offset)") auto

definition extractExifTry :: "File \<Rightarrow> error + ExifData option" where
  "extractExifTry file =
     (case file_arrayBuffer file of
        Inl e \<Rightarrow> Inl e
      | Inr buffer \<Rightarrow>
          (case getUint16 buffer 0 False of
             Inl e \<Rightarrow> Inl e
           | Inr soi \<Rightarrow>
               if soi \<noteq> 0xffd8 then Inr (Some allAbsent)
               else findExif buffer 2))"

text \<open>
  \<^verbatim>\<open>extractExifData\<close>: \<open>Inr r\<close> when the promise resolves with \<open>r\<close>, \<open>Inl e\<close> when it
  rejects with \<open>e\<close>.
\<close>

definition extractExifData :: "File \<Rightarrow> error + ExifData" where
  "extractExifData file =
     (let result = allAbsent in
      if \<not> startsWith (file_type file) ''image/jpeg'' \<and>
         \<not> endsWith (toLowerCase (file_name file)) ''.jpg''
      then Inr result
      else
        (case extractExifTry file of
           Inl e \<Rightarrow> Inr result
         | Inr (Some r) \<Rightarrow> Inr r
         | Inr None \<Rightarrow> Inr result))"

subsection \<open>Redaction re-encoder\<close>

text \<open>
  \<^verbatim>\<open>stripExifData\<close> runs against the browser: an \<^verbatim>\<open>Image\<close> that loads the file (its
  \<^verbatim>\<open>onload\<close> or its \<^verbatim>\<open>onerror\<close> handler fires), a canvas of the image's size whose
  \<^verbatim>\<open>getContext('2d')\<close> may return \<^verbatim>\<open>null\<close>, and \<^verbatim>\<open>toBlob\<close>, whose callback receives
  the encoded bytes or \<^verbatim>\<open>null\<close>. The browser is a parameter of the model; \<open>'img\<close> is
  the decoded image. A rejection carries the message of its \<^verbatim>\<open>Error\<close>. The new
  file's \<^verbatim>\<open>lastModified\<close> is not part of the model of a file.
\<close>

record 'img Browser =
  loadImage :: "File \<Rightarrow> 'img option"
  getContext2d :: "'img \<Rightarrow> bool"
  toBlob :: "'img \<Rightarrow> byte list option"

definition stripExifData :: "'img Browser \<Rightarrow> File \<Rightarrow> string + File" where
  "stripExifData browser file =
     (case loadImage browser file of
        None \<Rightarrow> Inl ''Failed to load image''
      | Some img \<Rightarrow>
          if \<not> getContext2d browser img then Inl ''Failed to get canvas context''
          else
            (case toBlob browser img of
               None \<Rightarrow> Inl ''Failed to create blob''
             | Some blob \<Rightarrow>
                 Inr \<lparr>file_type = ''image/jpeg'', file_name = file_name file,
                       file_arrayBuffer = Inr blob\<rparr>))"

subsection \<open>Forward bearing\<close>

text \<open>
  \<^verbatim>\<open>Math.atan2\<close> on the reals (signed zeros are not modelled), and the remainder
  operator \<^verbatim>\<open>%\<close>, whose quotient is truncated towards zero.
\<close>

definition Math_atan2 :: "real \<Rightarrow> real \<Rightarrow> real" where
  "Math_atan2 y x =
     (if 0 < x then arctan (y / x)
      else if x < 0 then (if 0 \<le> y then arctan (y / x) + pi else arctan (y / x) - pi)
      else if 0 < y then pi / 2
      else if y < 0 then - pi / 2
      else 0)"

definition jsRemainder :: "real \<Rightarrow> real \<Rightarrow> real" where
  "jsRemainder a b = a - b * of_int (if 0 \<le> a / b then \<lfloor>a / b\<rfloor> else \<lceil>a / b\<rceil>)"

definition calculateBearing :: "real \<Rightarrow> real \<Rightarrow> real \<Rightarrow> real \<Rightarrow> real" where
  "calculateBearing lat1 lng1 lat2 lng2 =
     (let dLng = (lng2 - lng1) * pi / 180;
          lat1Rad = lat1 * pi / 180;
          lat2Rad = lat2 * pi / 180;
          y = sin dLng * cos lat2Rad;
          x = cos lat1Rad * sin lat2Rad - sin lat1Rad * cos lat2Rad * cos dLng;
          bearing = Math_atan2 y x * 180 / pi
      in jsRemainder (bearing + 360) 360)"

subsection \<open>Cardinal label\<close>

text \<open>
  \<^verbatim>\<open>Math.round\<close> rounds a half upwards. An index outside an array reads
  \<^verbatim>\<open>undefined\<close>. Of a \<^verbatim>\<open>PhotoRow\<close> the function reads the bearing only.
\<close>

datatype jsString = JNull | JUndefined | JString string

record PhotoRow =
  photo_bearing :: "real option"

definition Math_round :: "real \<Rightarrow> int" where
  "Math_round x = \<lfloor>x + 1 / 2\<rfloor>"

definition jsRemainderInt :: "int \<Rightarrow> int \<Rightarrow> int" where
  "jsRemainderInt a b = sgn a * (\<bar>a\<bar> mod \<bar>b\<bar>)"

definition directions :: "string list" where
  "directions = [''N'', ''NE'', ''E'', ''SE'', ''S'', ''SW'', ''W'', ''NW'']"

definition arrayIndex :: "string list \<Rightarrow> int \<Rightarrow> jsString" where
  "arrayIndex xs i = (if 0 \<le> i \<and> i < int (length xs) then JString (xs ! nat i) else JUndefined)"

definition getBearingLabel :: "PhotoRow \<Rightarrow> jsString" where
  "getBearingLabel photo =
     (case photo_bearing photo of
        None \<Rightarrow> JNull
      | Some b \<Rightarrow>
          (let index = jsRemainderInt (Math_round (b / 45)) 8
           in arrayIndex directions index))"

text \<open>The label as the specification words it: round to nearest, modulo 8, index.\<close>

definition cardinalLabel :: "real \<Rightarrow> string" where
  "cardinalLabel b = directions ! (nat (round (b / 45)) mod 8)"

subsection \<open>Sample files\<close>

text \<open>
  Small JPEG buffers: the start-of-image marker, one APP1 segment with the EXIF header,
  and a big-endian TIFF structure. \<open>latitudeOnlyJpeg\<close> has a GPS IFD with a latitude
  reference \<^verbatim>\<open>N\<close> and the latitude 43, 39, 4.99 but no longitude entry;
  \<open>shortSegmentJpeg\<close> is the same file with a declared segment length of 2;
  \<open>bearing360Jpeg\<close> has a GPS IFD with the image direction 360/1;
  \<open>oddByteOrderJpeg\<close> has the byte-order marker 0x0000 and a DateTimeOriginal in IFD0;
  \<open>littleEndianJpeg\<close> is little-endian (marker II) and holds the latitude 43, 39, 4.99 N,
  the longitude 79, 20, 49.48 W, the image direction 90/1 and a DateTimeOriginal.
\<close>

definition latitudeOnlyJpeg :: DataView where
  "latitudeOnlyJpeg =
    [0xFF, 0xD8, 0xFF, 0xE1, 0x00, 0x58, 0x45, 0x78, 0x69, 0x66, 0x00, 0x00,
     0x4D, 0x4D, 0x00, 0x2A, 0x00, 0x00, 0x00, 0x08,
     0x00, 0x01,
     0x88, 0x25, 0x00, 0x04, 0x00, 0x00, 0x00, 0x01, 0x00, 0x00, 0x00, 0x1A,
     0x00, 0x00, 0x00, 0x00,
     0x00, 0x02,
     0x00, 0x01, 0x00, 0x02, 0x00, 0x00, 0x00, 0x02, 0x4E, 0x00, 0x00, 0x00,
     0x00, 0x02, 0x00, 0x05, 0x00, 0x00, 0x00, 0x03, 0x00, 0x00, 0x00, 0x38,
     0x00, 0x00, 0x00, 0x00,
     0x00, 0x00, 0x00, 0x2B, 0x00, 0x00, 0x00, 0x01,
     0x00, 0x00, 0x00, 0x27, 0x00, 0x00, 0x00, 0x01,
     0x00, 0x00, 0x01, 0xF3, 0x00, 0x00, 0x00, 0x64]"

definition shortSegmentJpeg :: DataView where
  "shortSegmentJpeg = latitudeOnlyJpeg[4 := 0x00, 5 := 0x02]"


definition oddByteOrderJpeg :: DataView where
  "oddByteOrderJpeg =
    [0xFF, 0xD8, 0xFF, 0xE1, 0x00, 0x36, 0x45, 0x78, 0x69, 0x66, 0x00, 0x00,
     0x00, 0x00, 0x00, 0x2A, 0x00, 0x00, 0x00, 0x08,
     0x00, 0x01,
     0x90, 0x03, 0x00, 0x02, 0x00, 0x00, 0x00, 0x14, 0x00, 0x00, 0x00, 0x1A,
     0x00, 0x00, 0x00, 0x00,
     0x32, 0x30, 0x32, 0x34, 0x3A, 0x30, 0x36, 0x3A, 0x31, 0x35, 0x20,
     0x31, 0x34, 0x3A, 0x33, 0x30, 0x3A, 0x30, 0x30, 0x00]"

definition littleEndianJpeg :: DataView where
  "littleEndianJpeg =
    [0xFF, 0xD8, 0xFF, 0xE1, 0x00, 0xBC, 0x45, 0x78, 0x69, 0x66, 0x00, 0x00,
     0x49, 0x49, 0x2A, 0x00, 0x08, 0x00, 0x00, 0x00,
     0x02, 0x00,
     0x25, 0x88, 0x04, 0x00, 0x01, 0x00, 0x00, 0x00, 0x26, 0x00, 0x00, 0x00,
     0x03, 0x90, 0x02, 0x00, 0x14, 0x00, 0x00, 0x00, 0xA0, 0x00, 0x00, 0x00,
     0x00, 0x00, 0x00, 0x00,
     0x05, 0x00,
     0x01, 0x00, 0x02, 0x00, 0x02, 0x00, 0x00, 0x00, 0x4E, 0x00, 0x00, 0x00,
     0x02, 0x00, 0x05, 0x00, 0x03, 0x00, 0x00, 0x00, 0x68, 0x00, 0x00, 0x00,
     0x03, 0x00, 0x02, 0x00, 0x02, 0x00, 0x00, 0x00, 0x57, 0x00, 0x00, 0x00,
     0x04, 0x00, 0x05, 0x00, 0x03, 0x00, 0x00, 0x00, 0x80, 0x00, 0x00, 0x00,
     0x11, 0x00, 0x05, 0x00, 0x01, 0x00, 0x00, 0x00, 0x98, 0x00, 0x00, 0x00,
     0x00, 0x00, 0x00, 0x00,
     0x2B, 0x00, 0x00, 0x00, 0x01, 0x00, 0x00, 0x00,
     0x27, 0x00, 0x00, 0x00, 0x01, 0x00, 0x00, 0x00,
     0xF3, 0x01, 0x00, 0x00, 0x64, 0x00, 0x00, 0x00,
     0x4F, 0x00, 0x00, 0x00, 0x01, 0x00, 0x00, 0x00,
     0x14, 0x00, 0x00, 0x00, 0x01, 0x00, 0x00, 0x00,
     0x54, 0x13, 0x00, 0x00, 0x64, 0x00, 0x00, 0x00,
     0x5A, 0x00, 0x00, 0x00, 0x01, 0x00, 0x00, 0x00,
     0x32, 0x30, 0x32, 0x34, 0x3A, 0x30, 0x36, 0x3A, 0x31, 0x35, 0x20,
     0x31, 0x34, 0x3A, 0x33, 0x30, 0x3A, 0x30, 0x30, 0x00]"

definition jpegFile :: "string \<Rightarrow> string \<Rightarrow> DataView \<Rightarrow> File" where
  "jpegFile ty nm bytes = \<lparr>file_type = ty, file_name = nm, file_arrayBuffer = Inr bytes\<rparr>"

subsection \<open>Entries of a GPS IFD\<close>

text \<open>
  What the properties below say about the entry table of a GPS IFD: an entry at
  \<open>entryOffset\<close> carries a given tag; it carries a given tag with type 5 and count 3;
  some entry of the table (the entry count read at \<open>ifdOffset\<close>) satisfies a
  predicate; the scan of \<^verbatim>\<open>parseGpsIfd\<close> reaches the end of its loop without an
  exception.
\<close>

definition isTagEntry :: "DataView \<Rightarrow> bool \<Rightarrow> nat \<Rightarrow> nat \<Rightarrow> bool" where
  "isTagEntry view littleEndian tag entryOffset =
     (getUint16 view entryOffset littleEndian = Inr tag)"

definition isRationalTriple :: "DataView \<Rightarrow> bool \<Rightarrow> nat \<Rightarrow> nat \<Rightarrow> bool" where
  "isRationalTriple view littleEndian tag entryOffset =
     (getUint16 view entryOffset littleEndian = Inr tag \<and>
      getUint16 view (entryOffset + 2) littleEndian = Inr 5 \<and>
      getUint32 view (entryOffset + 4) littleEndian = Inr 3)"

definition gpsHasEntry :: "DataView \<Rightarrow> nat \<Rightarrow> bool \<Rightarrow> (nat \<Rightarrow> bool) \<Rightarrow> bool" where
  "gpsHasEntry view ifdOffset littleEndian P =
     (case getUint16 view ifdOffset littleEndian of
        Inl e \<Rightarrow> False
      | Inr entryCount \<Rightarrow> (\<exists>i < entryCount. P (ifdOffset + 2 + i * 12)))"

definition gpsScanCompletes :: "DataView \<Rightarrow> nat \<Rightarrow> nat \<Rightarrow> bool \<Rightarrow> bool" where
  "gpsScanCompletes view ifdOffset tiffOffset littleEndian =
     (case getUint16 view ifdOffset littleEndian of
        Inl e \<Rightarrow> False
      | Inr entryCount \<Rightarrow>
          snd (gpsLoop view ifdOffset tiffOffset littleEndian entryCount 0 gpsScanInit) = None)"

text \<open>
  The two integers of a rational that an image-direction entry (tag 0x0011, type 5) of
  the buffer points to, relative to the start of the TIFF header.
\<close>

definition directionRational :: "DataView \<Rightarrow> bool \<Rightarrow> nat \<Rightarrow> nat \<Rightarrow> nat \<Rightarrow> bool" where
  "directionRational view littleEndian tiffOffset num den \<longleftrightarrow>
     (\<exists>entryOffset valueOffset.
        isTagEntry view littleEndian GPS_IMG_DIRECTION entryOffset \<and>
        getUint16 view (entryOffset + 2) littleEndian = Inr 5 \<and>
        getUint32 view (entryOffset + 8) littleEndian = Inr valueOffset \<and>
        getUint32 view (tiffOffset + valueOffset) littleEndian = Inr num \<and>
        getUint32 view (tiffOffset + valueOffset + 4) littleEndian = Inr den)"

text \<open>
  Where the GPS keys of an extracted record come from: all three are unset, or all
  three are those of one call of \<^verbatim>\<open>parseGpsIfd\<close> on the buffer.
\<close>

definition gpsKeysFrom :: "DataView \<Rightarrow> ExifData \<Rightarrow> bool" where
  "gpsKeysFrom view r \<longleftrightarrow>
     (latitude r = None \<and> longitude r = None \<and> bearing r = None) \<or>
     (\<exists>off t le. latitude r = latitude (parseGpsIfd view off t le) \<and>
        longitude r = longitude (parseGpsIfd view off t le) \<and>
        bearing r = bearing (parseGpsIfd view off t le))"

text \<open>
  Browsers for the re-encoder: one that cannot decode the file, one without a 2D
  context, one whose encoder yields nothing, and one that works.
\<close>

definition brokenImageBrowser :: "unit Browser" where
  "brokenImageBrowser =
     \<lparr>loadImage = (\<lambda>f. None), getContext2d = (\<lambda>i. True), toBlob = (\<lambda>i. Some [0xFF, 0xD8, 0xFF, 0xD9])\<rparr>"

definition noContextBrowser :: "unit Browser" where
  "noContextBrowser =
     \<lparr>loadImage = (\<lambda>f. Some ()), getContext2d = (\<lambda>i. False), toBlob = (\<lambda>i. Some [0xFF, 0xD8, 0xFF, 0xD9])\<rparr>"

definition noBlobBrowser :: "unit Browser" where
  "noBlobBrowser =
     \<lparr>loadImage = (\<lambda>f. Some ()), getContext2d = (\<lambda>i. True), toBlob = (\<lambda>i. None)\<rparr>"

definition workingBrowser :: "unit Browser" where
  "workingBrowser =
     \<lparr>loadImage = (\<lambda>f. Some ()), getContext2d = (\<lambda>i. True), toBlob = (\<lambda>i. Some [0xFF, 0xD8, 0xFF, 0xD9])\<rparr>"

subsection \<open>Evaluation rules\<close>

text \<open>
  The recursive equations of the loops are applied on demand only; the collections
  below evaluate the parser on a concrete buffer.
\<close>

declare readDateChars.simps [simp del] readGpsRationalsFrom.simps [simp del]
  gpsLoop.simps [simp del] exifIfdLoop.simps [simp del] ifd0Loop.simps [simp del]
  ifd0SubLoop.simps [simp del] findExif.simps [simp del]

lemmas loop_simps = readDateChars.simps readGpsRationalsFrom.simps gpsLoop.simps
  exifIfdLoop.simps ifd0Loop.simps ifd0SubLoop.simps findExif.simps

lemmas reader_defs = getUint8_def getUint16_def getUint32_def fromCharCode_def
  char_of_def bit_0 bit_Suc_0_iff Let_def

lemmas tag_defs = EXIF_MARKER_def EXIF_HEADER_def GPS_IFD_POINTER_def GPS_LATITUDE_def
  GPS_LATITUDE_REF_def GPS_LONGITUDE_def GPS_LONGITUDE_REF_def GPS_IMG_DIRECTION_def
  DATE_TIME_ORIGINAL_def DATE_TIME_DIGITIZED_def

lemmas parser_defs = extractExifData_def extractExifTry_def startsWith_def endsWith_def
  toLowerCase_def toLowerChar_def readHeader_def parseExifData_def parseTiffBody_def
  parseIfd0_def ifd0Entry_def ifd0SubEntry_def ifd0ScanInit_def parseDateFromExifIfd_def
  readExifDate_def isDigit_def parseGpsIfd_def gpsEntry_def gpsScanInit_def
  readGpsRationals_def axisDecimal_def truthyArray_def truthyString_def truthyNumber_def
  gpsToDecimal_def spread_def override_def allAbsent_def jpegFile_def

section \<open>Properties\<close>

subsection \<open>Forward bearing\<close>

lemma Math_atan2_bounds: "- pi < Math_atan2 y x \<and> Math_atan2 y x \<le> pi"
proof -
  have lo: "- (pi / 2) < arctan (y / x)" and hi: "arctan (y / x) < pi / 2"
    by (rule arctan_lbound, rule arctan_ubound)
  have pos: "0 < pi" by (rule pi_gt_zero)
  consider (a) "0 < x" | (b) "x < 0" "0 \<le> y" | (c) "x < 0" "y < 0" | (d) "x = 0"
    by linarith
  then show ?thesis
  proof cases
    case a
    then have "Math_atan2 y x = arctan (y / x)" by (simp add: Math_atan2_def)
    then show ?thesis using lo hi pos by linarith
  next
    case b
    then have "y / x \<le> 0" by (simp add: divide_nonneg_neg)
    then have "arctan (y / x) \<le> 0" by (simp add: arctan_le_zero_iff)
    moreover have "Math_atan2 y x = arctan (y / x) + pi" using b by (simp add: Math_atan2_def)
    ultimately show ?thesis using lo pos by linarith
  next
    case c
    then have "0 < y / x" by (simp add: divide_neg_neg)
    then have "0 < arctan (y / x)" by (simp add: zero_less_arctan_iff)
    moreover have "Math_atan2 y x = arctan (y / x) - pi" using c by (simp add: Math_atan2_def)
    ultimately show ?thesis using hi pos by linarith
  next
    case d
    then have "Math_atan2 y x = pi / 2 \<or> Math_atan2 y x = - pi / 2 \<or> Math_atan2 y x = 0"
      by (simp add: Math_atan2_def)
    then show ?thesis using pos by linarith
  qed
qed

lemma jsRemainder_range:
  assumes "0 \<le> a" and "0 < b"
  shows "0 \<le> jsRemainder a b \<and> jsRemainder a b < b"
proof -
  have q: "0 \<le> a / b" using assms by simp
  let ?q = "\<lfloor>a / b\<rfloor>"
  have "of_int ?q \<le> a / b" by (rule of_int_floor_le)
  then have "b * of_int ?q \<le> b * (a / b)" using assms(2) by (intro mult_left_mono) simp_all
  then have l: "b * of_int ?q \<le> a" using assms(2) by simp
  have "a / b < of_int ?q + 1" by linarith
  then have "b * (a / b) < b * (of_int ?q + 1)" using assms(2) by (intro mult_strict_left_mono) simp_all
  then have u: "a < b * of_int ?q + b" using assms(2) by (simp add: algebra_simps)
  show ?thesis using l u q by (simp add: jsRemainder_def)
qed

text \<open>
  C8: for every pair of coordinate pairs the forward bearing is at least 0 and less
  than 360, and the bearing from a point to itself is 0. The function is a total
  arithmetic expression, so there is nothing it could throw.
\<close>

theorem calculateBearing_range:
  "0 \<le> calculateBearing lat1 lng1 lat2 lng2 \<and> calculateBearing lat1 lng1 lat2 lng2 < 360 \<and>
   calculateBearing lat lng lat lng = 0"
proof -
  have range: "0 \<le> calculateBearing p q r s \<and> calculateBearing p q r s < 360" for p q r s
  proof -
    define t where "t = Math_atan2 (sin ((s - q) * pi / 180) * cos (r * pi / 180))
       (cos (p * pi / 180) * sin (r * pi / 180) - sin (p * pi / 180) * cos (r * pi / 180) * cos ((s - q) * pi / 180))"
    have "- pi < t" unfolding t_def using Math_atan2_bounds by blast
    then have "- pi * 180 < t * 180" by simp
    then have "- 180 < t * 180 / pi" using pi_gt_zero by (simp add: pos_less_divide_eq)
    then have "0 \<le> t * 180 / pi + 360" by simp
    then have "0 \<le> jsRemainder (t * 180 / pi + 360) 360 \<and> jsRemainder (t * 180 / pi + 360) 360 < 360"
      by (intro jsRemainder_range) simp_all
    then show ?thesis by (simp add: calculateBearing_def Let_def t_def)
  qed
  have same: "calculateBearing lat lng lat lng = 0"
    by (simp add: calculateBearing_def Let_def Math_atan2_def jsRemainder_def mult.commute)
  show ?thesis using range same by blast
qed

subsection \<open>Degrees, minutes, seconds\<close>

text \<open>
  C7: the result for the reference S is the negation of the result for N, likewise W
  and E; the magnitude of the result is that of degrees + minutes/60 + seconds/3600,
  which is the sum itself when the three components are non-negative, as the
  components of a GPS rational triple are. Nothing is rounded.
\<close>

theorem gpsToDecimal_sign_magnitude:
  "gpsToDecimal d m s ''S'' = - gpsToDecimal d m s ''N'' \<and>
   gpsToDecimal d m s ''W'' = - gpsToDecimal d m s ''E'' \<and>
   \<bar>gpsToDecimal d m s ref\<bar> = \<bar>d + m / 60 + s / 3600\<bar> \<and>
   (0 \<le> d \<and> 0 \<le> m \<and> 0 \<le> s \<longrightarrow> \<bar>gpsToDecimal d m s ref\<bar> = d + m / 60 + s / 3600)"
proof -
  define x where "x = d + m / 60 + s / 3600"
  have g: "gpsToDecimal d m s r = (if r = ''S'' \<or> r = ''W'' then - x else x)" for r
    by (simp add: gpsToDecimal_def Let_def x_def)
  have "gpsToDecimal d m s ''S'' = - gpsToDecimal d m s ''N''"
    and "gpsToDecimal d m s ''W'' = - gpsToDecimal d m s ''E''"
    and "\<bar>gpsToDecimal d m s ref\<bar> = \<bar>x\<bar>"
    by (simp_all add: g)
  then show ?thesis unfolding x_def by simp
qed

text \<open>
  C7, at 43 degrees, 39 minutes, 4.99 seconds south.
\<close>

theorem gpsToDecimal_sign_magnitude_witness:
  "(0::real) \<le> 43 \<and> (0::real) \<le> 39 \<and> (0::real) \<le> 499 / 100 \<and>
   gpsToDecimal 43 39 (499 / 100) ''S'' = - gpsToDecimal 43 39 (499 / 100) ''N'' \<and>
   \<bar>gpsToDecimal 43 39 (499 / 100) ''S''\<bar> = 43 + 39 / 60 + (499 / 100) / 3600"
proof -
  have h: "(0::real) \<le> 43 \<and> (0::real) \<le> 39 \<and> (0::real) \<le> 499 / 100" by simp
  note t = gpsToDecimal_sign_magnitude [of 43 39 "499 / 100" "''S''"]
  from t have a: "gpsToDecimal 43 39 (499 / 100) ''S'' = - gpsToDecimal 43 39 (499 / 100) ''N''"
    by (rule conjunct1)
  from t h have b: "\<bar>gpsToDecimal 43 39 (499 / 100) ''S''\<bar> = 43 + 39 / 60 + (499 / 100) / 3600"
    by blast
  from h a b show ?thesis by blast
qed

subsection \<open>Cardinal label\<close>

lemma Math_round_eq_round: "Math_round x = round x"
  by (simp add: Math_round_def round_def)

text \<open>
  C9: the label of bearing 0 is N, of 45 is NE, of 359 is N (359/45 rounds to 8, which
  wraps to index 0); for every non-negative bearing the label is the specification's
  round(bearing/45) mod 8 indexed into the eight directions.
\<close>

theorem getBearingLabel_cardinal:
  "getBearingLabel \<lparr>photo_bearing = Some 0\<rparr> = JString ''N'' \<and>
   getBearingLabel \<lparr>photo_bearing = Some 45\<rparr> = JString ''NE'' \<and>
   getBearingLabel \<lparr>photo_bearing = Some 359\<rparr> = JString ''N'' \<and>
   (0 \<le> b \<longrightarrow> getBearingLabel \<lparr>photo_bearing = Some b\<rparr> = JString (cardinalLabel b))"
proof -
  have general: "getBearingLabel \<lparr>photo_bearing = Some b\<rparr> = JString (cardinalLabel b)" if "0 \<le> b" for b
  proof -
    have "0 \<le> b / 45" using that by simp
    then have r: "0 \<le> round (b / 45)" by (simp add: round_def)
    define k where "k = round (b / 45)"
    have k: "0 \<le> k" using r by (simp add: k_def)
    have rem: "jsRemainderInt k 8 = k mod 8" using k by (simp add: jsRemainderInt_def sgn_if)
    have lo: "0 \<le> k mod 8" and hi: "k mod 8 < 8" by simp_all
    have idx: "nat (k mod 8) = nat k mod 8" using k by (simp add: nat_mod_distrib)
    show ?thesis
      using rem lo hi idx
      by (simp add: getBearingLabel_def cardinalLabel_def arrayIndex_def Math_round_eq_round
          k_def [symmetric] directions_def Let_def)
  qed
  have r0: "round (0::real) = 0" by simp
  have r1: "round (1::real) = 1" by simp
  have "\<lfloor>(359::real) / 45 + 1 / 2\<rfloor> = 8" by (simp add: floor_eq_iff)
  then have r8: "round ((359::real) / 45) = 8" by (simp add: round_def)
  have c0: "cardinalLabel 0 = ''N''" by (simp add: cardinalLabel_def directions_def)
  have c45: "cardinalLabel 45 = ''NE''" using r1 by (simp add: cardinalLabel_def directions_def)
  have c359: "cardinalLabel 359 = ''N''" using r8 by (simp add: cardinalLabel_def directions_def)
  show ?thesis using general [of 0] general [of 45] general [of 359] general [of b] c0 c45 c359
    by simp
qed

text \<open>
  C9, at bearing 90.
\<close>

theorem getBearingLabel_cardinal_witness:
  "(0::real) \<le> 90 \<and> getBearingLabel \<lparr>photo_bearing = Some 90\<rparr> = JString ''E''"
proof -
  have "round ((90::real) / 45) = 2" by simp
  then have "cardinalLabel 90 = ''E''" by (simp add: cardinalLabel_def directions_def)
  then show ?thesis using getBearingLabel_cardinal [of 90] by simp
qed

subsection \<open>Redaction re-encoder\<close>

text \<open>
  C6: when the source cannot be decoded, when the canvas has no 2D context, and when
  the encoder produces no output, stripExifData rejects with an explicit error; whenever
  it resolves, the file it resolves with holds the encoder's output for the decoded
  image, so a failed redaction never resolves with the source bytes or with nothing.
\<close>

theorem stripExifData_failure_rejects:
  "(loadImage browser file = None \<longrightarrow> stripExifData browser file = Inl ''Failed to load image'') \<and>
   (loadImage browser file = Some img \<and> \<not> getContext2d browser img \<longrightarrow>
      stripExifData browser file = Inl ''Failed to get canvas context'') \<and>
   (loadImage browser file = Some img \<and> getContext2d browser img \<and> toBlob browser img = None \<longrightarrow>
      stripExifData browser file = Inl ''Failed to create blob'') \<and>
   (stripExifData browser file = Inr out \<longrightarrow>
      (\<exists>i blob. loadImage browser file = Some i \<and> getContext2d browser i \<and>
         toBlob browser i = Some blob \<and> file_arrayBuffer out = Inr blob))"
  by (auto simp: stripExifData_def split: option.splits if_splits)

text \<open>
  C6, on a browser for each of the three failures and on one that works.
\<close>

theorem stripExifData_failure_rejects_witness:
  "loadImage brokenImageBrowser (jpegFile ''image/jpeg'' ''a.jpg'' latitudeOnlyJpeg) = None \<and>
   stripExifData brokenImageBrowser (jpegFile ''image/jpeg'' ''a.jpg'' latitudeOnlyJpeg) =
     Inl ''Failed to load image'' \<and>
   loadImage noContextBrowser (jpegFile ''image/jpeg'' ''a.jpg'' latitudeOnlyJpeg) = Some () \<and>
   \<not> getContext2d noContextBrowser () \<and>
   stripExifData noContextBrowser (jpegFile ''image/jpeg'' ''a.jpg'' latitudeOnlyJpeg) =
     Inl ''Failed to get canvas context'' \<and>
   loadImage noBlobBrowser (jpegFile ''image/jpeg'' ''a.jpg'' latitudeOnlyJpeg) = Some () \<and>
   getContext2d noBlobBrowser () \<and> toBlob noBlobBrowser () = None \<and>
   stripExifData noBlobBrowser (jpegFile ''image/jpeg'' ''a.jpg'' latitudeOnlyJpeg) =
     Inl ''Failed to create blob'' \<and>
   stripExifData workingBrowser (jpegFile ''image/jpeg'' ''a.jpg'' latitudeOnlyJpeg) =
     Inr \<lparr>file_type = ''image/jpeg'', file_name = ''a.jpg'',
           file_arrayBuffer = Inr [0xFF, 0xD8, 0xFF, 0xD9]\<rparr> \<and>
   (\<exists>i blob. loadImage workingBrowser (jpegFile ''image/jpeg'' ''a.jpg'' latitudeOnlyJpeg) = Some i \<and>
      getContext2d workingBrowser i \<and> toBlob workingBrowser i = Some blob \<and>
      file_arrayBuffer \<lparr>file_type = ''image/jpeg'', file_name = ''a.jpg'',
           file_arrayBuffer = Inr [0xFF, 0xD8, 0xFF, 0xD9]\<rparr> = Inr blob)"
proof -
  let ?f = "jpegFile ''image/jpeg'' ''a.jpg'' latitudeOnlyJpeg"
  have a: "loadImage brokenImageBrowser ?f = None" by (simp add: brokenImageBrowser_def)
  have b: "loadImage noContextBrowser ?f = Some () \<and> \<not> getContext2d noContextBrowser ()"
    by (simp add: noContextBrowser_def)
  have c: "loadImage noBlobBrowser ?f = Some () \<and> getContext2d noBlobBrowser () \<and>
           toBlob noBlobBrowser () = None"
    by (simp add: noBlobBrowser_def)
  from a stripExifData_failure_rejects [of brokenImageBrowser ?f]
  have a': "stripExifData brokenImageBrowser ?f = Inl ''Failed to load image''" by blast
  from b stripExifData_failure_rejects [of noContextBrowser ?f "()"]
  have b': "stripExifData noContextBrowser ?f = Inl ''Failed to get canvas context''" by blast
  from c stripExifData_failure_rejects [of noBlobBrowser ?f "()"]
  have c': "stripExifData noBlobBrowser ?f = Inl ''Failed to create blob''" by blast
  let ?out = "\<lparr>file_type = ''image/jpeg'', file_name = ''a.jpg'',
           file_arrayBuffer = Inr [0xFF, 0xD8, 0xFF, 0xD9 :: byte]\<rparr>"
  have d: "stripExifData workingBrowser ?f = Inr ?out"
    by (simp add: stripExifData_def workingBrowser_def jpegFile_def)
  from d stripExifData_failure_rejects [of workingBrowser ?f _ ?out]
  have d': "\<exists>i blob. loadImage workingBrowser ?f = Some i \<and> getContext2d workingBrowser i \<and>
      toBlob workingBrowser i = Some blob \<and> file_arrayBuffer ?out = Inr blob"
    by blast
  from a a' b b' c c' d d' show ?thesis by blast
qed

subsection \<open>Extraction is total\<close>

lemma getUint16_soi:
  assumes "getUint16 bytes 0 False = Inr 0xffd8"
  shows "take 2 bytes = [0xFF, 0xD8]"
proof -
  from assms have len: "2 \<le> length bytes"
    by (simp add: getUint16_def split: if_splits)
  from assms len have v: "unat (bytes ! 0) * 256 + unat (bytes ! 1) = 0xffd8"
    by (simp add: getUint16_def Let_def)
  have b1: "unat (bytes ! 1) < 256" using unsigned_less [of "bytes ! 1", where ?'a = nat] by simp
  from v b1 have u0: "unat (bytes ! 0) = 255" and u1: "unat (bytes ! 1) = 216" by arith+
  have w0: "bytes ! 0 = 0xFF" using u0 by (simp add: word_unat_eq_iff)
  have w1: "bytes ! 1 = 0xD8" using u1 by (simp add: word_unat_eq_iff)
  obtain x y rest where b: "bytes = x # y # rest"
    using len by (cases bytes; cases "tl bytes") auto
  show ?thesis using w0 w1 by (simp add: b)
qed

text \<open>
  C3: for every file extractExifData resolves with a record and never rejects; a
  buffer that does not begin with the bytes FF D8, declared image/jpeg, yields the
  all-absent record.
\<close>

theorem extractExifData_total:
  "(\<exists>r. extractExifData file = Inr r) \<and>
   (startsWith (file_type file) ''image/jpeg'' \<and> file_arrayBuffer file = Inr bytes \<and>
      take 2 bytes \<noteq> [0xFF, 0xD8] \<longrightarrow> extractExifData file = Inr allAbsent)"
proof -
  have total: "\<exists>r. extractExifData file = Inr r"
    by (simp add: extractExifData_def Let_def split: sum.splits option.splits)
  have nojpeg: "extractExifData file = Inr allAbsent"
    if "startsWith (file_type file) ''image/jpeg''" "file_arrayBuffer file = Inr bytes"
       "take 2 bytes \<noteq> [0xFF, 0xD8]"
  proof -
    have "getUint16 bytes 0 False \<noteq> Inr 0xffd8" using that(3) getUint16_soi by blast
    then have "extractExifTry file = Inl RangeError \<or> extractExifTry file = Inr (Some allAbsent)"
      using that(2) by (auto simp: extractExifTry_def getUint16_def Let_def split: sum.splits if_splits)
    then show ?thesis by (auto simp: extractExifData_def Let_def)
  qed
  show ?thesis using total nojpeg by blast
qed

text \<open>
  C3, on the first bytes of a PNG file declared image/jpeg.
\<close>

theorem extractExifData_total_witness:
  "startsWith (file_type (jpegFile ''image/jpeg'' ''scan.png'' [0x89, 0x50, 0x4E, 0x47])) ''image/jpeg'' \<and>
   take 2 [0x89, 0x50, 0x4E, 0x47 :: byte] \<noteq> [0xFF, 0xD8] \<and>
   extractExifData (jpegFile ''image/jpeg'' ''scan.png'' [0x89, 0x50, 0x4E, 0x47]) = Inr allAbsent"
  using extractExifData_total [of "jpegFile ''image/jpeg'' ''scan.png'' [0x89, 0x50, 0x4E, 0x47]" "[0x89, 0x50, 0x4E, 0x47]"]
  by (simp add: jpegFile_def startsWith_def)

subsection \<open>The file type guard\<close>

text \<open>
  C5: the guard tests the MIME type and the extension .jpg only. A JPEG file named
  photo.jpeg whose MIME type is empty is not parsed and yields the all-absent record,
  where the same bytes under the name photo.jpg yield the latitude.
\<close>

theorem jpeg_extension_not_parsed:
  "extractExifData (jpegFile '''' ''photo.jpeg'' latitudeOnlyJpeg) = Inr allAbsent \<and>
   extractExifData (jpegFile '''' ''photo.jpg'' latitudeOnlyJpeg) =
     Inr \<lparr>latitude = Some (15714499 / 360000), longitude = None, bearing = None, dateTaken = None\<rparr>"
proof -
  have a: "extractExifData (jpegFile '''' ''photo.jpeg'' latitudeOnlyJpeg) = Inr allAbsent"
    by (simp add: extractExifData_def jpegFile_def startsWith_def endsWith_def toLowerCase_def
        toLowerChar_def char_of_def)
  have b: "extractExifData (jpegFile '''' ''photo.jpg'' latitudeOnlyJpeg) =
     Inr \<lparr>latitude = Some (15714499 / 360000), longitude = None, bearing = None, dateTaken = None\<rparr>"
    by (simp add: parser_defs loop_simps reader_defs tag_defs latitudeOnlyJpeg_def)
  show ?thesis using a b by (rule conjI)
qed

subsection \<open>The declared segment length\<close>

text \<open>
  C10: parseExifData returns the same result for any two values of maxLength; a file
  whose APP1 segment declares the length 2 is walked to the end of the buffer like the
  same file with the true length, and its latitude, which lies beyond the declared
  segment, is found.
\<close>

theorem parseExifData_ignores_maxLength:
  "parseExifData view tiffOffset m1 = parseExifData view tiffOffset m2 \<and>
   getUint16 shortSegmentJpeg 4 False = Inr 2 \<and>
   extractExifData (jpegFile ''image/jpeg'' ''a.jpg'' shortSegmentJpeg) =
     Inr \<lparr>latitude = Some (15714499 / 360000), longitude = None, bearing = None, dateTaken = None\<rparr>"
proof -
  have a: "parseExifData view tiffOffset m1 = parseExifData view tiffOffset m2"
    by (simp add: parseExifData_def)
  have b: "getUint16 shortSegmentJpeg 4 False = Inr 2"
    by (simp add: getUint16_def shortSegmentJpeg_def latitudeOnlyJpeg_def)
  have c: "extractExifData (jpegFile ''image/jpeg'' ''a.jpg'' shortSegmentJpeg) =
     Inr \<lparr>latitude = Some (15714499 / 360000), longitude = None, bearing = None, dateTaken = None\<rparr>"
    by (simp add: parser_defs loop_simps reader_defs tag_defs latitudeOnlyJpeg_def shortSegmentJpeg_def)
  show ?thesis using a b c by blast
qed

subsection \<open>The scan of the GPS IFD\<close>

lemma gpsEntry_reads:
  assumes "gpsEntry v eo t le st = Inr st'"
  shows "\<exists>tag type count. getUint16 v eo le = Inr tag \<and> getUint16 v (eo + 2) le = Inr type \<and>
           getUint32 v (eo + 4) le = Inr count"
proof (cases "getUint16 v eo le")
  case (Inl e)
  with assms show ?thesis by (simp add: gpsEntry_def)
next
  case tag: (Inr tag)
  show ?thesis
  proof (cases "getUint16 v (eo + 2) le")
    case (Inl e)
    with assms tag show ?thesis by (simp add: gpsEntry_def)
  next
    case type: (Inr type)
    show ?thesis
    proof (cases "getUint32 v (eo + 4) le")
      case (Inl e)
      with assms tag type show ?thesis by (simp add: gpsEntry_def)
    next
      case (Inr count)
      with tag type show ?thesis by simp
    qed
  qed
qed

lemma gpsEntry_branches:
  assumes "getUint16 v eo le = Inr tag" "getUint16 v (eo + 2) le = Inr type"
    "getUint32 v (eo + 4) le = Inr count"
  shows "gpsEntry v eo t le st =
     (if tag = GPS_LATITUDE_REF then
          (case getUint8 v (eo + 8) of Inl e \<Rightarrow> Inl e
           | Inr c \<Rightarrow> Inr (st\<lparr>latRef := Some [fromCharCode c]\<rparr>))
        else if tag = GPS_LONGITUDE_REF then
          (case getUint8 v (eo + 8) of Inl e \<Rightarrow> Inl e
           | Inr c \<Rightarrow> Inr (st\<lparr>lngRef := Some [fromCharCode c]\<rparr>))
        else if tag = GPS_LATITUDE \<and> type = 5 \<and> count = 3 then
          (case getUint32 v (eo + 8) le of Inl e \<Rightarrow> Inl e
           | Inr valueOffset \<Rightarrow>
               (case readGpsRationals v (t + valueOffset) le of Inl e \<Rightarrow> Inl e
                | Inr vs \<Rightarrow> Inr (st\<lparr>latValues := Some vs\<rparr>)))
        else if tag = GPS_LONGITUDE \<and> type = 5 \<and> count = 3 then
          (case getUint32 v (eo + 8) le of Inl e \<Rightarrow> Inl e
           | Inr valueOffset \<Rightarrow>
               (case readGpsRationals v (t + valueOffset) le of Inl e \<Rightarrow> Inl e
                | Inr vs \<Rightarrow> Inr (st\<lparr>lngValues := Some vs\<rparr>)))
        else if tag = GPS_IMG_DIRECTION \<and> type = 5 then
          (case getUint32 v (eo + 8) le of Inl e \<Rightarrow> Inl e
           | Inr valueOffset \<Rightarrow>
               (case getUint32 v (t + valueOffset) le of Inl e \<Rightarrow> Inl e
                | Inr num \<Rightarrow>
                    (case getUint32 v (t + valueOffset + 4) le of Inl e \<Rightarrow> Inl e
                     | Inr den \<Rightarrow>
                         if den \<noteq> 0 then Inr (st\<lparr>resultBearing := Some (real num / real den)\<rparr>)
                         else Inr st)))
        else Inr st)"
  unfolding gpsEntry_def using assms by simp


lemma gpsEntry_Inr:
  assumes "gpsEntry v eo t le st = Inr st'"
  shows "(\<exists>c. isTagEntry v le GPS_LATITUDE_REF eo \<and> st' = st\<lparr>latRef := Some [c]\<rparr>) \<or>
         (\<exists>c. isTagEntry v le GPS_LONGITUDE_REF eo \<and> st' = st\<lparr>lngRef := Some [c]\<rparr>) \<or>
         (\<exists>vs. isRationalTriple v le GPS_LATITUDE eo \<and> st' = st\<lparr>latValues := Some vs\<rparr>) \<or>
         (\<exists>vs. isRationalTriple v le GPS_LONGITUDE eo \<and> st' = st\<lparr>lngValues := Some vs\<rparr>) \<or>
         (\<exists>num den. isTagEntry v le GPS_IMG_DIRECTION eo \<and> directionRational v le t num den \<and>
             den \<noteq> 0 \<and> st' = st\<lparr>resultBearing := Some (real num / real den)\<rparr>) \<or>
         (st' = st \<and> \<not> isTagEntry v le GPS_LATITUDE_REF eo \<and> \<not> isTagEntry v le GPS_LONGITUDE_REF eo \<and>
            \<not> isRationalTriple v le GPS_LATITUDE eo \<and> \<not> isRationalTriple v le GPS_LONGITUDE eo) \<or>
         (st' = st \<and> isTagEntry v le GPS_IMG_DIRECTION eo)"
proof -
  from gpsEntry_reads [OF assms] obtain tag type count where
    tag: "getUint16 v eo le = Inr tag" and type: "getUint16 v (eo + 2) le = Inr type" and
    count: "getUint32 v (eo + 4) le = Inr count"
    by blast
  note br = gpsEntry_branches [OF tag type count, of t st]
  have tagE: "isTagEntry v le k eo \<longleftrightarrow> tag = k" for k
    unfolding isTagEntry_def tag by simp
  have triE: "isRationalTriple v le k eo \<longleftrightarrow> tag = k \<and> type = 5 \<and> count = 3" for k
    unfolding isRationalTriple_def tag type count by simp
  consider (a) "tag = GPS_LATITUDE_REF"
    | (b) "tag \<noteq> GPS_LATITUDE_REF" "tag = GPS_LONGITUDE_REF"
    | (c) "tag \<noteq> GPS_LATITUDE_REF" "tag \<noteq> GPS_LONGITUDE_REF" "tag = GPS_LATITUDE \<and> type = 5 \<and> count = 3"
    | (d) "tag \<noteq> GPS_LATITUDE_REF" "tag \<noteq> GPS_LONGITUDE_REF" "\<not> (tag = GPS_LATITUDE \<and> type = 5 \<and> count = 3)"
          "tag = GPS_LONGITUDE \<and> type = 5 \<and> count = 3"
    | (e) "tag \<noteq> GPS_LATITUDE_REF" "tag \<noteq> GPS_LONGITUDE_REF" "\<not> (tag = GPS_LATITUDE \<and> type = 5 \<and> count = 3)"
          "\<not> (tag = GPS_LONGITUDE \<and> type = 5 \<and> count = 3)" "tag = GPS_IMG_DIRECTION \<and> type = 5"
    | (f) "tag \<noteq> GPS_LATITUDE_REF" "tag \<noteq> GPS_LONGITUDE_REF" "\<not> (tag = GPS_LATITUDE \<and> type = 5 \<and> count = 3)"
          "\<not> (tag = GPS_LONGITUDE \<and> type = 5 \<and> count = 3)" "\<not> (tag = GPS_IMG_DIRECTION \<and> type = 5)"
    by blast
  then show ?thesis
  proof cases
    case a
    then have "gpsEntry v eo t le st = (case getUint8 v (eo + 8) of Inl e \<Rightarrow> Inl e
           | Inr c \<Rightarrow> Inr (st\<lparr>latRef := Some [fromCharCode c]\<rparr>))"
      unfolding br by simp
    with assms obtain c where "st' = st\<lparr>latRef := Some [c]\<rparr>"
      by (cases "getUint8 v (eo + 8)") auto
    with a show ?thesis by (auto simp: tagE)
  next
    case b
    then have "gpsEntry v eo t le st = (case getUint8 v (eo + 8) of Inl e \<Rightarrow> Inl e
           | Inr c \<Rightarrow> Inr (st\<lparr>lngRef := Some [fromCharCode c]\<rparr>))"
      unfolding br by (simp add: tag_defs)
    with assms obtain c where "st' = st\<lparr>lngRef := Some [c]\<rparr>"
      by (cases "getUint8 v (eo + 8)") auto
    with b show ?thesis by (auto simp: tagE)
  next
    case c
    then have "gpsEntry v eo t le st = (case getUint32 v (eo + 8) le of Inl e \<Rightarrow> Inl e
           | Inr valueOffset \<Rightarrow>
               (case readGpsRationals v (t + valueOffset) le of Inl e \<Rightarrow> Inl e
                | Inr vs \<Rightarrow> Inr (st\<lparr>latValues := Some vs\<rparr>)))"
      unfolding br by (simp add: tag_defs)
    with assms obtain vs where "st' = st\<lparr>latValues := Some vs\<rparr>"
      by (auto split: sum.splits)
    with c show ?thesis by (auto simp: triE)
  next
    case d
    then have "gpsEntry v eo t le st = (case getUint32 v (eo + 8) le of Inl e \<Rightarrow> Inl e
           | Inr valueOffset \<Rightarrow>
               (case readGpsRationals v (t + valueOffset) le of Inl e \<Rightarrow> Inl e
                | Inr vs \<Rightarrow> Inr (st\<lparr>lngValues := Some vs\<rparr>)))"
      unfolding br by (simp add: tag_defs)
    with assms obtain vs where "st' = st\<lparr>lngValues := Some vs\<rparr>"
      by (auto split: sum.splits)
    with d show ?thesis by (auto simp: triE)
  next
    case e
    then have "gpsEntry v eo t le st = (case getUint32 v (eo + 8) le of Inl e \<Rightarrow> Inl e
           | Inr valueOffset \<Rightarrow>
               (case getUint32 v (t + valueOffset) le of Inl e \<Rightarrow> Inl e
                | Inr num \<Rightarrow>
                    (case getUint32 v (t + valueOffset + 4) le of Inl e \<Rightarrow> Inl e
                     | Inr den \<Rightarrow>
                         if den \<noteq> 0 then Inr (st\<lparr>resultBearing := Some (real num / real den)\<rparr>)
                         else Inr st)))"
      unfolding br by (simp add: tag_defs)
    with assms have "st' = st \<or>
        (\<exists>valueOffset num den. getUint32 v (eo + 8) le = Inr valueOffset \<and>
           getUint32 v (t + valueOffset) le = Inr num \<and>
           getUint32 v (t + valueOffset + 4) le = Inr den \<and> den \<noteq> 0 \<and>
           st' = st\<lparr>resultBearing := Some (real num / real den)\<rparr>)"
      by (auto split: sum.splits if_splits)
    then show ?thesis
    proof
      assume "st' = st"
      with e show ?thesis by (auto simp: tagE)
    next
      assume "\<exists>valueOffset num den. getUint32 v (eo + 8) le = Inr valueOffset \<and>
           getUint32 v (t + valueOffset) le = Inr num \<and>
           getUint32 v (t + valueOffset + 4) le = Inr den \<and> den \<noteq> 0 \<and>
           st' = st\<lparr>resultBearing := Some (real num / real den)\<rparr>"
      then obtain valueOffset num den where
        r: "getUint32 v (eo + 8) le = Inr valueOffset" "getUint32 v (t + valueOffset) le = Inr num"
           "getUint32 v (t + valueOffset + 4) le = Inr den" and
        d: "den \<noteq> 0" "st' = st\<lparr>resultBearing := Some (real num / real den)\<rparr>"
        by blast
      from e have tg: "isTagEntry v le GPS_IMG_DIRECTION eo" by (simp add: tagE)
      from e type have ty: "getUint16 v (eo + 2) le = Inr 5" by simp
      from tg ty r have "directionRational v le t num den"
        unfolding directionRational_def by blast
      with tg d show ?thesis by blast
    qed
  next
    case f
    then have "gpsEntry v eo t le st = Inr st"
      unfolding br by auto
    with assms have "st' = st" by simp
    with f show ?thesis by (auto simp: tagE triE)
  qed
qed


lemma gpsLoop_flag:
  "(\<forall>eo s s'. gpsEntry v eo t le s = Inr s' \<longrightarrow> (f s' \<longleftrightarrow> f s \<or> P eo)) \<Longrightarrow>
   gpsLoop v off t le n i st = (st', None) \<Longrightarrow>
   (f st' \<longleftrightarrow> f st \<or> (\<exists>k. i \<le> k \<and> k < n \<and> P (off + 2 + k * 12)))"
proof (induction v off t le n i st rule: gpsLoop.induct)
  case (1 view ifdOffset tiffOffset littleEndian entryCount i st)
  note step = "1.prems"(1)
  note run = "1.prems"(2)
  show ?case
  proof (cases "i < entryCount")
    case False
    with run have "st' = st" by (simp add: gpsLoop.simps)
    with False show ?thesis by auto
  next
    case True
    show ?thesis
    proof (cases "gpsEntry view (ifdOffset + 2 + i * 12) tiffOffset littleEndian st")
      case (Inl e)
      with True run show ?thesis by (simp add: gpsLoop.simps)
    next
      case (Inr s1)
      with True run have rest:
        "gpsLoop view ifdOffset tiffOffset littleEndian entryCount (i + 1) s1 = (st', None)"
        by (simp add: gpsLoop.simps)
      from "1.IH" [OF True Inr step rest]
      have ih: "f st' \<longleftrightarrow> f s1 \<or> (\<exists>k. i + 1 \<le> k \<and> k < entryCount \<and> P (ifdOffset + 2 + k * 12))" .
      from step Inr have here: "f s1 \<longleftrightarrow> f st \<or> P (ifdOffset + 2 + i * 12)" by blast
      have split: "(\<exists>k. i \<le> k \<and> k < entryCount \<and> P (ifdOffset + 2 + k * 12)) \<longleftrightarrow>
                   P (ifdOffset + 2 + i * 12) \<or> (\<exists>k. i + 1 \<le> k \<and> k < entryCount \<and> P (ifdOffset + 2 + k * 12))"
      proof
        assume "\<exists>k. i \<le> k \<and> k < entryCount \<and> P (ifdOffset + 2 + k * 12)"
        then obtain k where k: "i \<le> k" "k < entryCount" "P (ifdOffset + 2 + k * 12)" by blast
        show "P (ifdOffset + 2 + i * 12) \<or> (\<exists>k. i + 1 \<le> k \<and> k < entryCount \<and> P (ifdOffset + 2 + k * 12))"
        proof (cases "k = i")
          case True
          with k show ?thesis by simp
        next
          case False
          with k have "i + 1 \<le> k" by simp
          with k show ?thesis by blast
        qed
      next
        assume "P (ifdOffset + 2 + i * 12) \<or> (\<exists>k. i + 1 \<le> k \<and> k < entryCount \<and> P (ifdOffset + 2 + k * 12))"
        then show "\<exists>k. i \<le> k \<and> k < entryCount \<and> P (ifdOffset + 2 + k * 12)"
        proof
          assume "P (ifdOffset + 2 + i * 12)"
          with True show ?thesis by blast
        next
          assume "\<exists>k. i + 1 \<le> k \<and> k < entryCount \<and> P (ifdOffset + 2 + k * 12)"
          then obtain k where "i + 1 \<le> k" "k < entryCount" "P (ifdOffset + 2 + k * 12)" by blast
          then have "i \<le> k \<and> k < entryCount \<and> P (ifdOffset + 2 + k * 12)" by simp
          then show ?thesis by blast
        qed
      qed
      from ih here split show ?thesis by blast
    qed
  qed
qed


lemma step_latRef:
  "gpsEntry v eo t le s = Inr s' \<Longrightarrow>
   (truthyString (latRef s') \<longleftrightarrow> truthyString (latRef s) \<or> isTagEntry v le GPS_LATITUDE_REF eo)"
  using gpsEntry_Inr [of v eo t le s s']
  by (auto simp: truthyString_def isTagEntry_def isRationalTriple_def tag_defs)

lemma step_lngRef:
  "gpsEntry v eo t le s = Inr s' \<Longrightarrow>
   (truthyString (lngRef s') \<longleftrightarrow> truthyString (lngRef s) \<or> isTagEntry v le GPS_LONGITUDE_REF eo)"
  using gpsEntry_Inr [of v eo t le s s']
  by (auto simp: truthyString_def isTagEntry_def isRationalTriple_def tag_defs)

lemma step_latValues:
  "gpsEntry v eo t le s = Inr s' \<Longrightarrow>
   (truthyArray (latValues s') \<longleftrightarrow> truthyArray (latValues s) \<or> isRationalTriple v le GPS_LATITUDE eo)"
  using gpsEntry_Inr [of v eo t le s s']
  by (auto simp: truthyArray_def isTagEntry_def isRationalTriple_def tag_defs)

lemma step_lngValues:
  "gpsEntry v eo t le s = Inr s' \<Longrightarrow>
   (truthyArray (lngValues s') \<longleftrightarrow> truthyArray (lngValues s) \<or> isRationalTriple v le GPS_LONGITUDE eo)"
  using gpsEntry_Inr [of v eo t le s s']
  by (auto simp: truthyArray_def isTagEntry_def isRationalTriple_def tag_defs)



lemma parseGpsIfd_axis:
  assumes step: "\<And>eo s s'. gpsEntry v eo t le s = Inr s' \<Longrightarrow>
       (truthyString (ref s') \<longleftrightarrow> truthyString (ref s) \<or> isTagEntry v le rtag eo)"
    and stepv: "\<And>eo s s'. gpsEntry v eo t le s = Inr s' \<Longrightarrow>
       (truthyArray (vals s') \<longleftrightarrow> truthyArray (vals s) \<or> isRationalTriple v le vtag eo)"
    and init: "ref gpsScanInit = None" "vals gpsScanInit = None"
    and sel: "\<And>st :: GpsScan. sel (allAbsent\<lparr>bearing := resultBearing st\<rparr>) = None"
       "\<And>st :: GpsScan. sel (allAbsent\<lparr>bearing := resultBearing st,
                   latitude := axisDecimal (latValues st) (latRef st),
                   longitude := axisDecimal (lngValues st) (lngRef st)\<rparr>) = axisDecimal (vals st) (ref st)"
       "sel allAbsent = None"
  shows "sel (parseGpsIfd v off t le) \<noteq> None \<longleftrightarrow>
     gpsScanCompletes v off t le \<and> gpsHasEntry v off le (isTagEntry v le rtag) \<and>
     gpsHasEntry v off le (isRationalTriple v le vtag)"
proof (cases "getUint16 v off le")
  case (Inl e)
  then show ?thesis by (simp add: parseGpsIfd_def gpsScanCompletes_def sel)
next
  case (Inr n)
  obtain st e where run: "gpsLoop v off t le n 0 gpsScanInit = (st, e)"
    by (cases "gpsLoop v off t le n 0 gpsScanInit") blast
  show ?thesis
  proof (cases e)
    case (Some err)
    with Inr run show ?thesis by (simp add: parseGpsIfd_def gpsScanCompletes_def sel)
  next
    case None
    from gpsLoop_flag [where f = "\<lambda>s. truthyString (ref s)" and P = "isTagEntry v le rtag",
        OF _ run [unfolded None]] step
    have r: "truthyString (ref st) \<longleftrightarrow> (\<exists>k. k < n \<and> isTagEntry v le rtag (off + 2 + k * 12))"
      by (simp add: init truthyString_def)
    from gpsLoop_flag [where f = "\<lambda>s. truthyArray (vals s)" and P = "isRationalTriple v le vtag",
        OF _ run [unfolded None]] stepv
    have a: "truthyArray (vals st) \<longleftrightarrow> (\<exists>k. k < n \<and> isRationalTriple v le vtag (off + 2 + k * 12))"
      by (simp add: init truthyArray_def)
    have "sel (parseGpsIfd v off t le) = axisDecimal (vals st) (ref st)"
      using Inr run None by (simp add: parseGpsIfd_def sel)
    then have "sel (parseGpsIfd v off t le) \<noteq> None \<longleftrightarrow> truthyArray (vals st) \<and> truthyString (ref st)"
      by (simp add: axisDecimal_def)
    moreover have "gpsScanCompletes v off t le"
      using Inr run None by (simp add: gpsScanCompletes_def)
    ultimately show ?thesis using r a Inr by (auto simp: gpsHasEntry_def)
  qed
qed

lemma parseGpsIfd_latitude:
  "latitude (parseGpsIfd v off t le) \<noteq> None \<longleftrightarrow>
     gpsScanCompletes v off t le \<and> gpsHasEntry v off le (isTagEntry v le GPS_LATITUDE_REF) \<and>
     gpsHasEntry v off le (isRationalTriple v le GPS_LATITUDE)"
  by (rule parseGpsIfd_axis [where ref = latRef and vals = latValues])
     (simp_all add: step_latRef step_latValues gpsScanInit_def allAbsent_def)

lemma parseGpsIfd_longitude:
  "longitude (parseGpsIfd v off t le) \<noteq> None \<longleftrightarrow>
     gpsScanCompletes v off t le \<and> gpsHasEntry v off le (isTagEntry v le GPS_LONGITUDE_REF) \<and>
     gpsHasEntry v off le (isRationalTriple v le GPS_LONGITUDE)"
  by (rule parseGpsIfd_axis [where ref = lngRef and vals = lngValues])
     (simp_all add: step_lngRef step_lngValues gpsScanInit_def allAbsent_def)



subsection \<open>Provenance of the GPS keys\<close>

lemma gpsKeysFrom_allAbsent: "gpsKeysFrom view allAbsent"
  by (simp add: gpsKeysFrom_def allAbsent_def)

lemma parseTiffBody_keys:
  assumes "parseTiffBody view t le = Inr r"
  shows "gpsKeysFrom view r"
proof -
  have date: "gpsKeysFrom view (allAbsent\<lparr>dateTaken := d\<rparr>)" for d
    by (simp add: gpsKeysFrom_def allAbsent_def)
  have sp: "gpsKeysFrom view (spread b (parseGpsIfd view off t le))"
    if "latitude b = None" "longitude b = None" "bearing b = None" for b off
    unfolding gpsKeysFrom_def
    by (rule disjI2, rule exI [of _ off], rule exI [of _ t], rule exI [of _ le])
       (simp add: spread_def override_def that split: option.splits)
  have sp1: "gpsKeysFrom view (spread allAbsent (parseGpsIfd view off t le))" for off
    by (rule sp) (simp_all add: allAbsent_def)
  have sp2: "gpsKeysFrom view (spread (allAbsent\<lparr>dateTaken := d\<rparr>) (parseGpsIfd view off t le))" for off d
    by (rule sp) (simp_all add: allAbsent_def)
  from assms show ?thesis
    by (auto simp: parseTiffBody_def Let_def gpsKeysFrom_allAbsent date sp1 sp2
        split: sum.splits if_splits)
qed

lemma parseExifData_keys: "gpsKeysFrom view (parseExifData view t m)"
  by (auto simp: parseExifData_def Let_def gpsKeysFrom_allAbsent parseTiffBody_keys split: sum.splits)

lemma spread_allAbsent: "spread allAbsent r = r"
  by (simp add: spread_def override_def allAbsent_def split: option.splits)

lemma findExif_keys:
  "findExif view offset = Inr (Some r) \<Longrightarrow> gpsKeysFrom view r"
proof (induction view offset rule: findExif.induct)
  case (1 view offset)
  from "1.prems" show ?case
    apply (subst (asm) findExif.simps)
    apply (auto simp: spread_allAbsent parseExifData_keys split: if_splits sum.splits
        intro: "1.IH"(1) "1.IH"(2))
    done
qed

lemma extractExifData_keys:
  assumes "extractExifData file = Inr r"
  shows "r = allAbsent \<or> (\<exists>view. file_arrayBuffer file = Inr view \<and> gpsKeysFrom view r)"
  using assms
  by (auto simp: extractExifData_def extractExifTry_def Let_def
      split: if_splits sum.splits option.splits dest: findExif_keys)


subsection \<open>The sample files, extracted\<close>

lemma latitudeOnlyJpeg_extract:
  "extractExifData (jpegFile ''image/jpeg'' ''a.jpg'' latitudeOnlyJpeg) =
     Inr \<lparr>latitude = Some (15714499 / 360000), longitude = None, bearing = None, dateTaken = None\<rparr>"
  by (simp add: parser_defs loop_simps reader_defs tag_defs latitudeOnlyJpeg_def)

lemma latitudeOnlyJpeg_gps:
  "parseGpsIfd latitudeOnlyJpeg 38 12 False =
     \<lparr>latitude = Some (15714499 / 360000), longitude = None, bearing = None, dateTaken = None\<rparr>"
  by (simp add: parser_defs loop_simps reader_defs tag_defs latitudeOnlyJpeg_def)


lemma oddByteOrderJpeg_extract:
  "extractExifData (jpegFile ''image/jpeg'' ''a.jpg'' oddByteOrderJpeg) =
     Inr \<lparr>latitude = None, longitude = None, bearing = None, dateTaken = Some ''2024-06-15T14:30:00Z''\<rparr>"
  by (simp add: parser_defs loop_simps reader_defs tag_defs oddByteOrderJpeg_def)

lemma littleEndianJpeg_extract:
  "extractExifData (jpegFile ''image/jpeg'' ''a.jpg'' littleEndianJpeg) =
     Inr \<lparr>latitude = Some (43 + 39 / 60 + (499 / 100) / 3600),
          longitude = Some (- (79 + 20 / 60 + (4948 / 100) / 3600)),
          bearing = Some 90, dateTaken = Some ''2024-06-15T14:30:00Z''\<rparr>"
  by (simp add: parser_defs loop_simps reader_defs tag_defs littleEndianJpeg_def)

subsection \<open>Latitude and longitude\<close>

text \<open>
  C1, as stated, fails: a file whose GPS IFD holds a latitude reference and a latitude
  of three rationals but no longitude entry yields a present latitude and an absent
  longitude.
\<close>

theorem latitude_without_longitude:
  "extractExifData (jpegFile ''image/jpeg'' ''a.jpg'' latitudeOnlyJpeg) =
     Inr \<lparr>latitude = Some (15714499 / 360000), longitude = None, bearing = None, dateTaken = None\<rparr>"
  by (rule latitudeOnlyJpeg_extract)

text \<open>
  C1, amended: each axis is decided on its own. The latitude of a GPS IFD is present
  exactly when the scan of the IFD completes and the IFD holds a latitude reference
  entry (tag 1) and a latitude entry (tag 2, type 5, count 3); the longitude likewise
  with tags 3 and 4. When an extracted record has a coordinate, both its coordinates are
  those of one GPS IFD of the file's buffer.
\<close>

theorem coordinates_decided_per_axis:
  "(latitude (parseGpsIfd view ifdOffset tiffOffset le) \<noteq> None \<longleftrightarrow>
      gpsScanCompletes view ifdOffset tiffOffset le \<and>
      gpsHasEntry view ifdOffset le (isTagEntry view le GPS_LATITUDE_REF) \<and>
      gpsHasEntry view ifdOffset le (isRationalTriple view le GPS_LATITUDE)) \<and>
   (longitude (parseGpsIfd view ifdOffset tiffOffset le) \<noteq> None \<longleftrightarrow>
      gpsScanCompletes view ifdOffset tiffOffset le \<and>
      gpsHasEntry view ifdOffset le (isTagEntry view le GPS_LONGITUDE_REF) \<and>
      gpsHasEntry view ifdOffset le (isRationalTriple view le GPS_LONGITUDE)) \<and>
   (extractExifData file = Inr r \<and> (latitude r \<noteq> None \<or> longitude r \<noteq> None) \<longrightarrow>
      (\<exists>buffer off t e. file_arrayBuffer file = Inr buffer \<and>
         latitude r = latitude (parseGpsIfd buffer off t e) \<and>
         longitude r = longitude (parseGpsIfd buffer off t e)))"
proof -
  have top: "\<exists>buffer off t e. file_arrayBuffer file = Inr buffer \<and>
         latitude r = latitude (parseGpsIfd buffer off t e) \<and>
         longitude r = longitude (parseGpsIfd buffer off t e)"
    if "extractExifData file = Inr r" "latitude r \<noteq> None \<or> longitude r \<noteq> None"
  proof -
    from that(2) have "r \<noteq> allAbsent" by (auto simp: allAbsent_def)
    with extractExifData_keys [OF that(1)] obtain buffer where
      b: "file_arrayBuffer file = Inr buffer" and k: "gpsKeysFrom buffer r" by blast
    from k that(2) obtain off t e where
      "latitude r = latitude (parseGpsIfd buffer off t e)"
      "longitude r = longitude (parseGpsIfd buffer off t e)"
      unfolding gpsKeysFrom_def by blast
    with b show ?thesis by blast
  qed
  show ?thesis
    using parseGpsIfd_latitude [of view ifdOffset tiffOffset le]
      parseGpsIfd_longitude [of view ifdOffset tiffOffset le] top
    by blast
qed

lemma ex_less_two: "(\<exists>i < (2::nat). P i) \<longleftrightarrow> P 0 \<or> P 1"
  by (auto simp: less_Suc_eq numeral_2_eq_2)

lemma gpsHasEntry_two:
  assumes "getUint16 v off le = Inr 2"
  shows "gpsHasEntry v off le P \<longleftrightarrow> P (off + 2) \<or> P (off + 14)"
proof -
  have "(\<exists>i < (2::nat). P (off + 2 + i * 12)) \<longleftrightarrow> P (off + 2 + 0 * 12) \<or> P (off + 2 + 1 * 12)"
    by (rule ex_less_two [where P = "\<lambda>i. P (off + 2 + i * 12)"])
  then show ?thesis using assms by (simp add: gpsHasEntry_def add.commute)
qed

text \<open>
  C1, amended, on the GPS IFD of the file with a latitude only.
\<close>

theorem coordinates_decided_per_axis_witness:
  "gpsScanCompletes latitudeOnlyJpeg 38 12 False \<and>
   gpsHasEntry latitudeOnlyJpeg 38 False (isTagEntry latitudeOnlyJpeg False GPS_LATITUDE_REF) \<and>
   gpsHasEntry latitudeOnlyJpeg 38 False (isRationalTriple latitudeOnlyJpeg False GPS_LATITUDE) \<and>
   \<not> gpsHasEntry latitudeOnlyJpeg 38 False (isRationalTriple latitudeOnlyJpeg False GPS_LONGITUDE) \<and>
   latitude (parseGpsIfd latitudeOnlyJpeg 38 12 False) \<noteq> None \<and>
   longitude (parseGpsIfd latitudeOnlyJpeg 38 12 False) = None \<and>
   (\<exists>buffer off t e.
      file_arrayBuffer (jpegFile ''image/jpeg'' ''a.jpg'' latitudeOnlyJpeg) = Inr buffer \<and>
      Some (15714499 / 360000) = latitude (parseGpsIfd buffer off t e) \<and>
      None = longitude (parseGpsIfd buffer off t e))"
proof -
  let ?r = "\<lparr>latitude = Some (15714499 / 360000 :: real), longitude = None, bearing = None, dateTaken = None\<rparr>"
  let ?f = "jpegFile ''image/jpeg'' ''a.jpg'' latitudeOnlyJpeg"
  note t = coordinates_decided_per_axis [of latitudeOnlyJpeg 38 12 False ?f ?r]
  have n: "getUint16 latitudeOnlyJpeg 38 False = Inr 2"
    by (simp add: getUint16_def latitudeOnlyJpeg_def)
  have c: "gpsScanCompletes latitudeOnlyJpeg 38 12 False"
    by (simp add: gpsScanCompletes_def parser_defs loop_simps reader_defs tag_defs latitudeOnlyJpeg_def)
  have a: "gpsHasEntry latitudeOnlyJpeg 38 False (isTagEntry latitudeOnlyJpeg False GPS_LATITUDE_REF)"
    unfolding gpsHasEntry_two [OF n]
    by (simp add: isTagEntry_def getUint16_def tag_defs latitudeOnlyJpeg_def)
  have b: "gpsHasEntry latitudeOnlyJpeg 38 False (isRationalTriple latitudeOnlyJpeg False GPS_LATITUDE)"
    unfolding gpsHasEntry_two [OF n]
    by (simp add: isRationalTriple_def getUint16_def getUint32_def
        tag_defs latitudeOnlyJpeg_def)
  have d: "\<not> gpsHasEntry latitudeOnlyJpeg 38 False (isRationalTriple latitudeOnlyJpeg False GPS_LONGITUDE)"
    unfolding gpsHasEntry_two [OF n]
    by (simp add: isRationalTriple_def getUint16_def getUint32_def
        tag_defs latitudeOnlyJpeg_def)
  from t c a b have lat: "latitude (parseGpsIfd latitudeOnlyJpeg 38 12 False) \<noteq> None" by blast
  from t d have lng: "longitude (parseGpsIfd latitudeOnlyJpeg 38 12 False) = None" by blast
  have "extractExifData ?f = Inr ?r \<and> (latitude ?r \<noteq> None \<or> longitude ?r \<noteq> None)"
    by (simp add: latitudeOnlyJpeg_extract)
  with t have "\<exists>buffer off t e. file_arrayBuffer ?f = Inr buffer \<and>
         latitude ?r = latitude (parseGpsIfd buffer off t e) \<and>
         longitude ?r = longitude (parseGpsIfd buffer off t e)" by blast
  then have top: "\<exists>buffer off t e. file_arrayBuffer ?f = Inr buffer \<and>
      Some (15714499 / 360000) = latitude (parseGpsIfd buffer off t e) \<and>
      None = longitude (parseGpsIfd buffer off t e)" by simp
  from c a b d lat lng top show ?thesis by blast
qed

subsection \<open>The bearing read from a file\<close>




subsection \<open>The byte-order marker\<close>

text \<open>
  C4, as stated, fails: a TIFF header whose byte-order marker is 0x0000, neither II
  nor MM, is walked with big-endian reads and its date is extracted.
\<close>

theorem odd_byte_order_parsed:
  "getUint16 oddByteOrderJpeg 12 False = Inr 0 \<and>
   extractExifData (jpegFile ''image/jpeg'' ''a.jpg'' oddByteOrderJpeg) =
     Inr \<lparr>latitude = None, longitude = None, bearing = None, dateTaken = Some ''2024-06-15T14:30:00Z''\<rparr>"
proof -
  have "getUint16 oddByteOrderJpeg 12 False = Inr 0"
    by (simp add: getUint16_def oddByteOrderJpeg_def)
  then show ?thesis using oddByteOrderJpeg_extract by (rule conjI)
qed

text \<open>
  C4, amended: the marker 0x4949 (II) selects little-endian reads and every other
  marker, MM included, selects big-endian reads; the marker alone is never a parse
  failure. Whatever the marker, when the magic number read in the selected order is
  0x002A and the offset of IFD0 can be read, the result is that of walking IFD0 and the
  GPS IFD in the selected order; when the magic number read in the selected order is
  not 0x002A, the result is the all-absent record.
\<close>

theorem byte_order_selection:
  "getUint16 view tiffOffset False = Inr byteOrder \<Longrightarrow>
   (getUint16 view (tiffOffset + 2) (byteOrder = 0x4949) = Inr 0x002a \<and>
    getUint32 view (tiffOffset + 4) (byteOrder = 0x4949) = Inr ifd0Offset \<longrightarrow>
      parseExifData view tiffOffset maxLength =
        (let ifd0 = parseIfd0 view (tiffOffset + ifd0Offset) tiffOffset (byteOrder = 0x4949);
             result = (if truthyString (scanDateTaken ifd0)
                       then allAbsent\<lparr>dateTaken := scanDateTaken ifd0\<rparr> else allAbsent)
         in if truthyNumber (gpsIfdOffset ifd0)
            then spread result
                   (parseGpsIfd view (tiffOffset + the (gpsIfdOffset ifd0)) tiffOffset
                      (byteOrder = 0x4949))
            else result)) \<and>
   (getUint16 view (tiffOffset + 2) (byteOrder = 0x4949) \<noteq> Inr 0x002a \<longrightarrow>
      parseExifData view tiffOffset maxLength = allAbsent)"
proof -
  assume bo: "getUint16 view tiffOffset False = Inr byteOrder"
  let ?le = "byteOrder = 0x4949"
  have eq: "parseExifData view tiffOffset maxLength =
     (case parseTiffBody view tiffOffset ?le of Inl e \<Rightarrow> allAbsent | Inr r \<Rightarrow> r)"
    using bo by (simp add: parseExifData_def Let_def)
  have walk: "parseExifData view tiffOffset maxLength =
        (let ifd0 = parseIfd0 view (tiffOffset + ifd0Offset) tiffOffset ?le;
             result = (if truthyString (scanDateTaken ifd0)
                       then allAbsent\<lparr>dateTaken := scanDateTaken ifd0\<rparr> else allAbsent)
         in if truthyNumber (gpsIfdOffset ifd0)
            then spread result
                   (parseGpsIfd view (tiffOffset + the (gpsIfdOffset ifd0)) tiffOffset ?le)
            else result)"
    if m: "getUint16 view (tiffOffset + 2) ?le = Inr 0x002a"
      and o: "getUint32 view (tiffOffset + 4) ?le = Inr ifd0Offset"
    unfolding eq parseTiffBody_def m o by (simp add: Let_def)
  have fail: "parseExifData view tiffOffset maxLength = allAbsent"
    if "getUint16 view (tiffOffset + 2) ?le \<noteq> Inr 0x002a"
  proof (cases "getUint16 view (tiffOffset + 2) ?le")
    case (Inl x)
    then show ?thesis unfolding eq parseTiffBody_def by simp
  next
    case (Inr magic)
    with that have "magic \<noteq> 0x002a" by simp
    with Inr show ?thesis unfolding eq parseTiffBody_def by simp
  qed
  from walk fail show ?thesis by blast
qed

text \<open>
  C4, amended, on the little-endian file (marker II), on the marker 0x0000 with a
  big-endian structure, on MM with the magic number in little-endian order and on II
  with the magic number in big-endian order.
\<close>

theorem byte_order_selection_witness:
  "getUint16 littleEndianJpeg 12 False = Inr 0x4949 \<and>
   getUint16 littleEndianJpeg (12 + 2) True = Inr 0x002a \<and>
   getUint32 littleEndianJpeg (12 + 4) True = Inr 8 \<and>
   parseExifData littleEndianJpeg 12 180 =
     \<lparr>latitude = Some (43 + 39 / 60 + (499 / 100) / 3600),
      longitude = Some (- (79 + 20 / 60 + (4948 / 100) / 3600)),
      bearing = Some 90, dateTaken = Some ''2024-06-15T14:30:00Z''\<rparr> \<and>
   getUint16 oddByteOrderJpeg 12 False = Inr 0 \<and>
   getUint16 oddByteOrderJpeg (12 + 2) False = Inr 0x002a \<and>
   getUint32 oddByteOrderJpeg (12 + 4) False = Inr 8 \<and>
   parseExifData oddByteOrderJpeg 12 46 =
     \<lparr>latitude = None, longitude = None, bearing = None, dateTaken = Some ''2024-06-15T14:30:00Z''\<rparr> \<and>
   getUint16 [0x4D, 0x4D, 0x2A, 0x00] 0 False = Inr 0x4D4D \<and>
   parseExifData [0x4D, 0x4D, 0x2A, 0x00] 0 0 = allAbsent \<and>
   getUint16 [0x49, 0x49, 0x00, 0x2A] 0 False = Inr 0x4949 \<and>
   parseExifData [0x49, 0x49, 0x00, 0x2A] 0 0 = allAbsent"
proof -
  have l: "getUint16 littleEndianJpeg 12 False = Inr 0x4949"
    by (simp add: getUint16_def littleEndianJpeg_def)
  have l1: "getUint16 littleEndianJpeg (12 + 2) True = Inr 0x002a"
    by (simp add: getUint16_def littleEndianJpeg_def)
  have l2: "getUint32 littleEndianJpeg (12 + 4) True = Inr 8"
    by (simp add: getUint32_def littleEndianJpeg_def)
  have l3: "getUint16 littleEndianJpeg (12 + 2) ((0x4949::nat) = 0x4949) = Inr 0x002a \<and>
            getUint32 littleEndianJpeg (12 + 4) ((0x4949::nat) = 0x4949) = Inr 8"
    using l1 l2 by simp
  from byte_order_selection [OF l, of 8 180] l3
  have "parseExifData littleEndianJpeg 12 180 =
        (let ifd0 = parseIfd0 littleEndianJpeg (12 + 8) 12 ((0x4949::nat) = 0x4949);
             result = (if truthyString (scanDateTaken ifd0)
                       then allAbsent\<lparr>dateTaken := scanDateTaken ifd0\<rparr> else allAbsent)
         in if truthyNumber (gpsIfdOffset ifd0)
            then spread result
                   (parseGpsIfd littleEndianJpeg (12 + the (gpsIfdOffset ifd0)) 12
                      ((0x4949::nat) = 0x4949))
            else result)"
    by blast
  also have "\<dots> = \<lparr>latitude = Some (43 + 39 / 60 + (499 / 100) / 3600),
      longitude = Some (- (79 + 20 / 60 + (4948 / 100) / 3600)),
      bearing = Some 90, dateTaken = Some ''2024-06-15T14:30:00Z''\<rparr>"
    by (simp add: parser_defs loop_simps reader_defs tag_defs littleEndianJpeg_def)
  finally have l': "parseExifData littleEndianJpeg 12 180 =
     \<lparr>latitude = Some (43 + 39 / 60 + (499 / 100) / 3600),
      longitude = Some (- (79 + 20 / 60 + (4948 / 100) / 3600)),
      bearing = Some 90, dateTaken = Some ''2024-06-15T14:30:00Z''\<rparr>" .
  have a: "getUint16 oddByteOrderJpeg 12 False = Inr 0"
    by (simp add: getUint16_def oddByteOrderJpeg_def)
  have a1: "getUint16 oddByteOrderJpeg (12 + 2) False = Inr 0x002a"
    by (simp add: getUint16_def oddByteOrderJpeg_def)
  have a2: "getUint32 oddByteOrderJpeg (12 + 4) False = Inr 8"
    by (simp add: getUint32_def oddByteOrderJpeg_def)
  have a3: "getUint16 oddByteOrderJpeg (12 + 2) ((0::nat) = 0x4949) = Inr 0x002a \<and>
            getUint32 oddByteOrderJpeg (12 + 4) ((0::nat) = 0x4949) = Inr 8"
    using a1 a2 by simp
  from byte_order_selection [OF a, of 8 46] a3
  have "parseExifData oddByteOrderJpeg 12 46 =
        (let ifd0 = parseIfd0 oddByteOrderJpeg (12 + 8) 12 ((0::nat) = 0x4949);
             result = (if truthyString (scanDateTaken ifd0)
                       then allAbsent\<lparr>dateTaken := scanDateTaken ifd0\<rparr> else allAbsent)
         in if truthyNumber (gpsIfdOffset ifd0)
            then spread result
                   (parseGpsIfd oddByteOrderJpeg (12 + the (gpsIfdOffset ifd0)) 12
                      ((0::nat) = 0x4949))
            else result)"
    by blast
  also have "\<dots> = \<lparr>latitude = None, longitude = None, bearing = None,
      dateTaken = Some ''2024-06-15T14:30:00Z''\<rparr>"
    by (simp add: parser_defs loop_simps reader_defs tag_defs oddByteOrderJpeg_def)
  finally have a': "parseExifData oddByteOrderJpeg 12 46 =
     \<lparr>latitude = None, longitude = None, bearing = None, dateTaken = Some ''2024-06-15T14:30:00Z''\<rparr>" .
  have b: "getUint16 [0x4D, 0x4D, 0x2A, 0x00] 0 False = Inr 0x4D4D"
    by (simp add: getUint16_def)
  have b2: "getUint16 [0x4D, 0x4D, 0x2A, 0x00] (0 + 2) ((0x4D4D::nat) = 0x4949) \<noteq> Inr 0x002a"
    by (simp add: getUint16_def)
  from byte_order_selection [OF b, of 0 0] b2
  have b': "parseExifData [0x4D, 0x4D, 0x2A, 0x00] 0 0 = allAbsent" by blast
  have c: "getUint16 [0x49, 0x49, 0x00, 0x2A] 0 False = Inr 0x4949"
    by (simp add: getUint16_def)
  have c2: "getUint16 [0x49, 0x49, 0x00, 0x2A] (0 + 2) ((0x4949::nat) = 0x4949) \<noteq> Inr 0x002a"
    by (simp add: getUint16_def)
  from byte_order_selection [OF c, of 0 0] c2
  have c': "parseExifData [0x49, 0x49, 0x00, 0x2A] 0 0 = allAbsent" by blast
  from l l1 l2 l' a a1 a2 a' b b' c c' show ?thesis by blast
qed

end
